theory Spec2Isabelle
  imports Complex_Main "HOL-Library.Sublist"
begin

section \<open>Data model\<close>

text \<open>
  The editor keeps a timeline of audio blocks. Times are Python floats in the source; they
  are modelled as real numbers, so the comparisons and the subtractions of the source are
  exact here. The class \<open>AudioBlock\<close> of \<open>main.py\<close> has five attributes.
\<close>

record AudioBlock =
  start :: real
  "end" :: real
  is_silence :: bool
  "include" :: bool
  visited :: bool

text \<open>
  \<open>AudioBlock.__init__(start, end, is_silence)\<close>: a new block is included exactly when it
  is not silence, and it has not been visited.
\<close>

definition new_block :: "real \<Rightarrow> real \<Rightarrow> bool \<Rightarrow> AudioBlock" where
  "new_block s e sil =
     \<lparr>start = s, end = e, is_silence = sil, include = (\<not> sil), visited = False\<rparr>"

section \<open>Looking a block up by time\<close>

text \<open>
  \<open>position_changed\<close> and \<open>paintEvent\<close> both evaluate
  \<open>next((i for i, block in enumerate(blocks) if block.start <= p <= block.end), 0)\<close>.
  The generator is the recursion \<open>first_match\<close>, which carries the index of
  \<open>enumerate\<close>; \<open>next(..., 0)\<close> supplies the default when it is exhausted.
\<close>

definition holds_position :: "AudioBlock \<Rightarrow> real \<Rightarrow> bool" where
  "holds_position b p \<longleftrightarrow> start b \<le> p \<and> p \<le> end b"

fun first_match :: "nat \<Rightarrow> AudioBlock list \<Rightarrow> real \<Rightarrow> nat option" where
  "first_match i [] p = None"
| "first_match i (b # bs) p =
     (if holds_position b p then Some i else first_match (Suc i) bs p)"

definition find_block_at :: "AudioBlock list \<Rightarrow> real \<Rightarrow> nat" where
  "find_block_at blks p = (case first_match 0 blks p of Some i \<Rightarrow> i | None \<Rightarrow> 0)"

section \<open>Building the blocks from the silence intervals\<close>

text \<open>
  The second half of \<open>SilenceDetector.detect_blocks\<close> walks the pairs of
  \<open>zip(silence_starts, silence_ends)\<close> with the cursor \<open>current_time\<close>, starting at 0 with
  an empty list: a non-silence block is appended when the silence starts after the cursor,
  the silence block is always appended, and the cursor moves to the end of the silence.
  \<open>silence_loop\<close> is that \<open>for\<close> loop on the pair (\<open>blocks\<close>, \<open>current_time\<close>);
  \<open>build_blocks\<close> adds the trailing non-silence block when the cursor is before the
  duration.
\<close>

fun silence_loop :: "(real \<times> real) list \<Rightarrow> AudioBlock list \<times> real \<Rightarrow> AudioBlock list \<times> real" where
  "silence_loop [] acc = acc"
| "silence_loop ((s, e) # ivs) (blks, current_time) =
     silence_loop ivs
       ((if s > current_time then blks @ [new_block current_time s False] else blks)
          @ [new_block s e True], e)"

definition build_blocks :: "(real \<times> real) list \<Rightarrow> real \<Rightarrow> AudioBlock list" where
  "build_blocks ivs duration =
     (case silence_loop ivs ([], 0) of
        (blks, current_time) \<Rightarrow>
          if current_time < duration then blks @ [new_block current_time duration False]
          else blks)"

text \<open>
  The inputs the builder is specified for: silence intervals in time order, each with
  \<open>s < e\<close>, none starting before the previous one ends, the first not before the cursor
  and the last not after the duration.
\<close>

fun valid_intervals :: "real \<Rightarrow> (real \<times> real) list \<Rightarrow> real \<Rightarrow> bool" where
  "valid_intervals t [] d \<longleftrightarrow> t \<le> d"
| "valid_intervals t ((s, e) # ivs) d \<longleftrightarrow> t \<le> s \<and> s < e \<and> valid_intervals e ivs d"

text \<open>
  A block list tiles \<open>[a, z)\<close> when it starts at \<open>a\<close>, every block is non-empty and ends
  where the next one starts, and the last one ends at \<open>z\<close>.
\<close>

fun tiles :: "real \<Rightarrow> AudioBlock list \<Rightarrow> real \<Rightarrow> bool" where
  "tiles a [] z \<longleftrightarrow> a = z"
| "tiles a (b # bs) z \<longleftrightarrow> start b = a \<and> start b < end b \<and> tiles (end b) bs z"

text \<open>No two neighbours of the list are both non-silence.\<close>

fun no_adjacent_speech :: "AudioBlock list \<Rightarrow> bool" where
  "no_adjacent_speech (a # b # bs) \<longleftrightarrow> (is_silence a \<or> is_silence b) \<and> no_adjacent_speech (b # bs)"
| "no_adjacent_speech bs \<longleftrightarrow> True"

section \<open>Reading the analyzer output\<close>

text \<open>
  The first half of \<open>detect_blocks\<close> reads the text that ffmpeg's \<open>silencedetect\<close> filter
  prints and the text that the duration probe prints. Both texts are inputs of the model:
  running the two processes is outside it. A Python exception is a value of
  \<open>py_error\<close>, on the left of a sum.
\<close>

datatype py_error = IndexError | ValueError | KeyError | TypeError | OSError

text \<open>\<open>sub in line\<close> on strings: \<open>sub\<close> occurs somewhere in \<open>line\<close>.\<close>

fun py_in :: "string \<Rightarrow> string \<Rightarrow> bool" where
  "py_in sub [] \<longleftrightarrow> sub = []"
| "py_in sub (c # cs) \<longleftrightarrow> prefix sub (c # cs) \<or> py_in sub cs"

text \<open>
  \<open>s.split(sep)\<close> for a non-empty separator: the pieces between the occurrences of
  \<open>sep\<close>, found from the left and not overlapping; the result is never empty.
\<close>

fun py_split :: "string \<Rightarrow> string \<Rightarrow> string list" where
  "py_split sep [] = [[]]"
| "py_split sep (c # cs) =
     (if prefix sep (c # cs) then [] # py_split sep (drop (length sep - 1) cs)
      else (case py_split sep cs of [] \<Rightarrow> [[c]] | p # ps \<Rightarrow> (c # p) # ps))"

text \<open>
  \<open>s.strip()\<close> removes the white space at both ends; the ASCII characters that
  \<open>str.isspace\<close> accepts are listed.
\<close>

definition is_space :: "char \<Rightarrow> bool" where
  "is_space c \<longleftrightarrow> c \<in> set [CHR '' '', CHR 0x09, CHR 0x0A, CHR 0x0B, CHR 0x0C, CHR 0x0D,
                         CHR 0x1C, CHR 0x1D, CHR 0x1E, CHR 0x1F]"

definition strip :: "string \<Rightarrow> string" where
  "strip s = rev (dropWhile is_space (rev (dropWhile is_space s)))"

text \<open>
  \<open>line.split(key)[1].split(" ")[0]\<close> passed to \<open>float\<close>. The built-in \<open>float\<close> is not
  code of the repository: it is the parameter \<open>pyfloat\<close>, which returns \<open>None\<close> where
  \<open>float\<close> raises \<open>ValueError\<close>. Index 1 of a list with one element raises
  \<open>IndexError\<close>.
\<close>

definition marker_time :: "(string \<Rightarrow> real option) \<Rightarrow> string \<Rightarrow> string \<Rightarrow> py_error + real" where
  "marker_time pyfloat key line =
     (case py_split key line of
        _ # rest # _ \<Rightarrow>
          (case py_split '' '' rest of
             [] \<Rightarrow> Inl IndexError
           | w # _ \<Rightarrow> (case pyfloat w of None \<Rightarrow> Inl ValueError | Some t \<Rightarrow> Inr t))
      | _ \<Rightarrow> Inl IndexError)"

text \<open>
  The loop over the lines, on the pair (\<open>silence_starts\<close>, \<open>silence_ends\<close>): a line that
  contains \<open>silence_start\<close> appends to the first list, otherwise a line that contains
  \<open>silence_end\<close> appends to the second, and any other line is skipped.
\<close>

fun scan_lines ::
  "(string \<Rightarrow> real option) \<Rightarrow> string list \<Rightarrow> real list \<times> real list
     \<Rightarrow> py_error + real list \<times> real list" where
  "scan_lines pyfloat [] acc = Inr acc"
| "scan_lines pyfloat (line # rest) (silence_starts, silence_ends) =
     (if py_in ''silence_start'' line then
        (case marker_time pyfloat ''silence_start: '' line of
           Inl e \<Rightarrow> Inl e
         | Inr t \<Rightarrow> scan_lines pyfloat rest (silence_starts @ [t], silence_ends))
      else if py_in ''silence_end'' line then
        (case marker_time pyfloat ''silence_end: '' line of
           Inl e \<Rightarrow> Inl e
         | Inr t \<Rightarrow> scan_lines pyfloat rest (silence_starts, silence_ends @ [t]))
      else scan_lines pyfloat rest (silence_starts, silence_ends))"

text \<open>
  \<open>SilenceDetector.detect_blocks\<close>: \<open>output\<close> is the text of ffmpeg's standard error,
  \<open>probe_stdout\<close> the text printed by the duration probe. The markers are read first, then
  \<open>float(duration_result.stdout.strip())\<close>, then the blocks are built from
  \<open>zip(silence_starts, silence_ends)\<close>.
\<close>

definition detect_blocks ::
  "(string \<Rightarrow> real option) \<Rightarrow> string \<Rightarrow> string \<Rightarrow> py_error + AudioBlock list" where
  "detect_blocks pyfloat output probe_stdout =
     (case scan_lines pyfloat (py_split [CHR 0x0A] output) ([], []) of
        Inl e \<Rightarrow> Inl e
      | Inr (silence_starts, silence_ends) \<Rightarrow>
          (case pyfloat (strip probe_stdout) of
             None \<Rightarrow> Inl ValueError
           | Some d \<Rightarrow> Inr (build_blocks (zip silence_starts silence_ends) d)))"



text \<open>
  A value for the parameter \<open>pyfloat\<close> on which the model can be run: the plain decimal
  notation that ffmpeg and the probe print (an optional minus sign, digits, an optional
  point and digits), where it agrees with \<open>float\<close>; every other text is rejected.
\<close>

definition digit :: "char \<Rightarrow> nat option" where
  "digit c =
     (if c \<in> set ''0123456789''
      then Some (length (takeWhile (\<lambda>k. k \<noteq> c) ''0123456789''))
      else None)"

fun digits_value :: "nat \<Rightarrow> string \<Rightarrow> nat option" where
  "digits_value acc [] = Some acc"
| "digits_value acc (c # cs) =
     (case digit c of None \<Rightarrow> None | Some d \<Rightarrow> digits_value (10 * acc + d) cs)"

definition unsigned_decimal :: "string \<Rightarrow> real option" where
  "unsigned_decimal s =
     (let ip = takeWhile (\<lambda>c. c \<noteq> CHR ''.'') s;
          rest = dropWhile (\<lambda>c. c \<noteq> CHR ''.'') s
      in if ip = [] then None
         else (case digits_value 0 ip of
                 None \<Rightarrow> None
               | Some n \<Rightarrow>
                   (case rest of
                      [] \<Rightarrow> Some (real n)
                    | _ # fp \<Rightarrow>
                        (case digits_value 0 fp of
                           None \<Rightarrow> None
                         | Some m \<Rightarrow> Some (real n + real m / 10 ^ length fp)))))"

definition decimal_float :: "string \<Rightarrow> real option" where
  "decimal_float s =
     (case strip s of
        [] \<Rightarrow> None
      | c # r \<Rightarrow> if c = CHR ''-'' then map_option uminus (unsigned_decimal r)
                 else unsigned_decimal (c # r))"

text \<open>
  A text as ffmpeg prints it, shortened: a silence from 2 to 3 seconds, then a silence that
  starts at 9.5 seconds and has no end marker.
\<close>

definition sample_output :: string where
  "sample_output =
     ''[sd] silence_start: 2'' @ [CHR 0x0A] @
     ''[sd] silence_end: 3 | silence_duration: 1'' @ [CHR 0x0A] @
     ''[sd] silence_start: 9.5'' @ [CHR 0x0A]"

section \<open>Python's float arithmetic\<close>

text \<open>
  The times are Python floats, IEEE 754 double precision numbers. Comparisons of floats
  are exact, so the block builder and the lookup need nothing more than the order of the
  reals. Subtraction, addition, multiplication and division round their result to the
  nearest double, ties to the even one, and a decimal literal such as \<open>0.1\<close> denotes the
  double nearest to it; where the source computes with floats and a decision depends on
  the result, the model rounds in the same way. A double is a multiple of a power of two
  by an integer below \<open>2 ^ 53\<close>; \<open>expo x\<close> is the binary exponent of a positive \<open>x\<close>, with
  \<open>2 ^ expo x \<le> x < 2 ^ (expo x + 1)\<close>, and below \<open>2 ^ - 1022\<close> the spacing stays that of
  the subnormal numbers. Overflow to infinity is not modelled: it needs a magnitude of
  \<open>2 ^ 1024\<close>, which no time in seconds reaches.
\<close>

function expo :: "real \<Rightarrow> int" where
  "expo x =
     (if x \<le> 0 then 0
      else if 2 \<le> x then expo (x / 2) + 1
      else if x < 1 then expo (2 * x) - 1
      else 0)"
  by pat_completeness auto
termination
proof (relation "measure (\<lambda>x. if 1 \<le> x then nat \<lfloor>x\<rfloor> else if 0 < x then nat \<lfloor>1 / x\<rfloor> + 1 else 0)")
  show "wf (measure (\<lambda>x. if 1 \<le> x then nat \<lfloor>x\<rfloor> else if 0 < x then nat \<lfloor>1 / x\<rfloor> + 1 else 0))"
    by simp
next
  fix x :: real
  assume "\<not> x \<le> 0" "2 \<le> x"
  then have "\<lfloor>x / 2\<rfloor> < \<lfloor>x\<rfloor>" by linarith
  moreover have "0 \<le> \<lfloor>x / 2\<rfloor>" using \<open>2 \<le> x\<close> by simp
  ultimately show "(x / 2, x) \<in> measure (\<lambda>x. if 1 \<le> x then nat \<lfloor>x\<rfloor> else if 0 < x then nat \<lfloor>1 / x\<rfloor> + 1 else 0)"
    using \<open>2 \<le> x\<close> by simp
next
  fix x :: real
  assume a: "\<not> x \<le> 0" "\<not> 2 \<le> x" "x < 1"
  show "(2 * x, x) \<in> measure (\<lambda>x. if 1 \<le> x then nat \<lfloor>x\<rfloor> else if 0 < x then nat \<lfloor>1 / x\<rfloor> + 1 else 0)"
  proof (cases "1 \<le> 2 * x")
    case True
    with a have "\<lfloor>2 * x\<rfloor> = 1" by linarith
    moreover from a have "1 \<le> 1 / x" by simp
    then have "1 \<le> \<lfloor>1 / x\<rfloor>" by linarith
    ultimately show ?thesis using a True by simp
  next
    case False
    define y where "y = 1 / x"
    from False a have y: "2 \<le> y" by (simp add: y_def field_simps)
    then have "\<lfloor>y / 2\<rfloor> < \<lfloor>y\<rfloor>" by linarith
    moreover have "1 / (2 * x) = y / 2" by (simp add: y_def)
    ultimately have lt: "\<lfloor>1 / (2 * x)\<rfloor> < \<lfloor>1 / x\<rfloor>" by (simp only: y_def)
    have "0 < 1 / (2 * x)" using a by simp
    then have nn: "0 \<le> \<lfloor>1 / (2 * x)\<rfloor>" by linarith
    from lt nn have "nat \<lfloor>1 / (2 * x)\<rfloor> < nat \<lfloor>1 / x\<rfloor>" by linarith
    moreover have "\<not> 1 \<le> x" "0 < x" "0 < 2 * x" using a by simp_all
    ultimately show ?thesis using False by (simp only: in_measure if_False if_True)
  qed
qed

declare expo.simps [simp del]

text \<open>\<open>2 ^ k\<close> for an integer exponent.\<close>

definition pow2 :: "int \<Rightarrow> real" where
  "pow2 k = (if 0 \<le> k then 2 ^ nat k else 1 / 2 ^ nat (- k))"

text \<open>The nearest integer, a tie going to the even one.\<close>

definition round_even :: "real \<Rightarrow> int" where
  "round_even y =
     (let f = \<lfloor>y\<rfloor>; r = y - of_int f
      in if r < 1 / 2 then f else if 1 / 2 < r then f + 1
         else if even f then f else f + 1)"

text \<open>The double nearest to a real number.\<close>

definition float_round :: "real \<Rightarrow> real" where
  "float_round x =
     (if x = 0 then 0
      else let e = max (expo \<bar>x\<bar>) (- 1022); ulp = pow2 (e - 52)
           in of_int (round_even (x / ulp)) * ulp)"

text \<open>
  The operators \<open>-\<close>, \<open>+\<close>, \<open>*\<close> and \<open>/\<close> on floats. An \<open>int\<close> operand is converted
  first, by \<open>float_round\<close> as well.
\<close>

definition py_sub :: "real \<Rightarrow> real \<Rightarrow> real"
  where "py_sub a b = float_round (a - b)"
definition py_add :: "real \<Rightarrow> real \<Rightarrow> real"
  where "py_add a b = float_round (a + b)"
definition py_mul :: "real \<Rightarrow> real \<Rightarrow> real"
  where "py_mul a b = float_round (a * b)"
definition py_truediv :: "real \<Rightarrow> real \<Rightarrow> real"
  where "py_truediv a b = float_round (a / b)"

section \<open>The session: block manager, media player and player window\<close>

text \<open>
  \<open>BlockManager\<close> holds the block list and the path of the video; the attribute
  \<open>duration\<close> exists only after a state has been loaded.
\<close>

record BlockManager =
  blocks :: "AudioBlock list"
  video_path :: "string option"
  duration :: "real option"

text \<open>
  \<open>QMediaPlayer\<close> is not code of the repository. Of its state the model keeps the source,
  the position in milliseconds and the playback state, and of its slots the effect that
  the Qt documentation gives them on these three: \<open>setPosition\<close> moves the position,
  \<open>play\<close> and \<open>pause\<close> change the playback state, \<open>stop\<close> stops and returns to the
  beginning, \<open>setSource\<close> installs a new medium, stopped at the beginning. Signals are
  delivered as separate events, not inside the slot that causes them.
\<close>

datatype playback_state = StoppedState | PlayingState | PausedState

record MediaPlayer =
  source :: "string option"
  position :: int
  playbackState :: playback_state

definition setPosition :: "int \<Rightarrow> MediaPlayer \<Rightarrow> MediaPlayer" where
  "setPosition ms mp = mp\<lparr>position := ms\<rparr>"

definition play :: "MediaPlayer \<Rightarrow> MediaPlayer" where
  "play mp = mp\<lparr>playbackState := PlayingState\<rparr>"

definition pause :: "MediaPlayer \<Rightarrow> MediaPlayer" where
  "pause mp = mp\<lparr>playbackState := PausedState\<rparr>"

definition stop :: "MediaPlayer \<Rightarrow> MediaPlayer" where
  "stop mp = mp\<lparr>position := 0, playbackState := StoppedState\<rparr>"

definition setSource :: "string \<Rightarrow> MediaPlayer \<Rightarrow> MediaPlayer" where
  "setSource path mp = \<lparr>source = Some path, position = 0, playbackState = StoppedState\<rparr>"

text \<open>
  The attributes of \<open>VideoPlayer\<close> that are not widgets. The skip timer has no field: its
  slot \<open>skip_silence\<close> is taken to run at any time.
\<close>

record VideoPlayer =
  block_manager :: BlockManager
  current_block_index :: nat
  last_jumped_block_index :: nat
  green_mode :: bool
  media_player :: MediaPlayer

section \<open>Skipping silence while playing\<close>

text \<open>\<open>int(x)\<close> on a float truncates towards zero.\<close>

definition py_int :: "real \<Rightarrow> int" where
  "py_int x = (if x < 0 then \<lceil>x\<rceil> else \<lfloor>x\<rfloor>)"

text \<open>
  The \<open>while\<close> loop of \<open>skip_silence\<close>: from \<open>next_block_index\<close> on, stop at the first
  block that is not silence and whose \<open>block_duration = next_block.end - next_block.start\<close>
  is at least \<open>min_block_duration = 0.3\<close>, or at the length of the list.
\<close>

function next_suitable :: "AudioBlock list \<Rightarrow> nat \<Rightarrow> nat" where
  "next_suitable blks next_block_index =
     (if next_block_index < length blks then
        (if \<not> is_silence (blks ! next_block_index)
            \<and> py_sub (end (blks ! next_block_index)) (start (blks ! next_block_index))
                \<ge> float_round (3 / 10)
         then next_block_index
         else next_suitable blks (next_block_index + 1))
      else next_block_index)"
  by pat_completeness auto
termination
  by (relation "measure (\<lambda>(blks, n). length blks - n)") auto

declare next_suitable.simps [simp del]

text \<open>
  \<open>VideoPlayer.skip_silence\<close>, the slot of the skip timer, with the float operations of
  the source: \<open>position() / 1000.0\<close>, \<open>current_position - current_block.start < 0.1\<close>,
  \<open>current_block.end - current_block.start < 0.2\<close> and
  \<open>int((next_block.start + 0.05) * 1000)\<close>. The debug printing is left out.
\<close>

definition skip_silence :: "VideoPlayer \<Rightarrow> VideoPlayer" where
  "skip_silence vp =
     (let blks = blocks (block_manager vp) in
      if blks = [] then vp
      else
        let current_position =
              py_truediv (float_round (real_of_int (position (media_player vp)))) 1000;
            vp1 = (if current_block_index vp \<ge> length blks
                   then vp\<lparr>current_block_index := length blks - 1\<rparr> else vp);
            current_block = blks ! current_block_index vp1
        in if py_sub current_position (start current_block) < float_round (1 / 10) then vp1
           else
             let should_skip0 = (is_silence current_block \<and> \<not> include current_block);
                 should_skip =
                   (if \<not> is_silence current_block
                       \<and> py_sub (end current_block) (start current_block) < float_round (2 / 10)
                    then True else should_skip0)
             in if should_skip then
                  let next_block_index = next_suitable blks (current_block_index vp1 + 1)
                  in if next_block_index < length blks then
                       let target_position =
                             py_add (start (blks ! next_block_index)) (float_round (5 / 100));
                           mp = setPosition (py_int (py_mul target_position 1000))
                                  (media_player vp1);
                           mp' = (if playbackState mp \<noteq> PlayingState then play mp else mp)
                       in vp1\<lparr>media_player := mp', current_block_index := next_block_index\<rparr>
                     else vp1\<lparr>media_player := stop (media_player vp1)\<rparr>
                else vp1)"

text \<open>
  The quantities that claim C3 speaks of, as the source computes them: the index of the
  current block after an index beyond the list has been set to the last one, the time the
  position is past the start of the current block, the condition to skip, a block the
  skip can land on, and the position in milliseconds the player is sent to.
\<close>

definition clamped_index :: "VideoPlayer \<Rightarrow> nat" where
  "clamped_index vp =
     (if length (blocks (block_manager vp)) \<le> current_block_index vp
      then length (blocks (block_manager vp)) - 1 else current_block_index vp)"

definition time_in_block :: "VideoPlayer \<Rightarrow> real" where
  "time_in_block vp =
     py_sub (py_truediv (float_round (real_of_int (position (media_player vp)))) 1000)
       (start (blocks (block_manager vp) ! clamped_index vp))"

definition skip_condition :: "AudioBlock \<Rightarrow> bool" where
  "skip_condition b \<longleftrightarrow>
     (is_silence b \<and> \<not> include b)
     \<or> (\<not> is_silence b \<and> py_sub (end b) (start b) < float_round (2 / 10))"

definition suitable :: "AudioBlock \<Rightarrow> bool" where
  "suitable b \<longleftrightarrow> \<not> is_silence b \<and> float_round (3 / 10) \<le> py_sub (end b) (start b)"

definition seek_target :: "AudioBlock \<Rightarrow> int" where
  "seek_target b = py_int (py_mul (py_add (start b) (float_round (5 / 100))) 1000)"

text \<open>
  A player with five blocks: a non-silence block of 0.15 seconds that was played in
  green mode, a silence, a non-silence block of 0.2 seconds, a long non-silence block and
  a final silence; the player is paused at index \<open>i\<close> and \<open>ms\<close> milliseconds.
\<close>

definition skip_blocks :: "AudioBlock list" where
  "skip_blocks =
     [\<lparr>start = 0, end = 15 / 100, is_silence = False, include = True, visited = True\<rparr>,
      new_block (15 / 100) 1 True,
      new_block 1 (12 / 10) False,
      new_block (12 / 10) 3 False,
      new_block 3 4 True]"

definition skip_player :: "nat \<Rightarrow> int \<Rightarrow> VideoPlayer" where
  "skip_player i ms =
     \<lparr>block_manager = \<lparr>blocks = skip_blocks, video_path = Some ''a.mp4'', duration = None\<rparr>,
      current_block_index = i, last_jumped_block_index = 0, green_mode = True,
      media_player = \<lparr>source = Some ''a.mp4'', position = ms, playbackState = PausedState\<rparr>\<rparr>"

text \<open>
  A player on any block list, playing at index \<open>i\<close> and \<open>ms\<close> milliseconds; a list in
  which a silence starts at 0.5 seconds; and a list in which the block after a silence
  starts at 32 seconds.
\<close>

definition player_on :: "AudioBlock list \<Rightarrow> nat \<Rightarrow> int \<Rightarrow> VideoPlayer" where
  "player_on blks i ms =
     \<lparr>block_manager = \<lparr>blocks = blks, video_path = Some ''a.mp4'', duration = None\<rparr>,
      current_block_index = i, last_jumped_block_index = 0, green_mode = True,
      media_player = \<lparr>source = Some ''a.mp4'', position = ms, playbackState = PlayingState\<rparr>\<rparr>"

definition half_second_blocks :: "AudioBlock list" where
  "half_second_blocks = [new_block 0 (1 / 2) False, new_block (1 / 2) 2 True, new_block 2 5 False]"

definition late_blocks :: "AudioBlock list" where
  "late_blocks = [new_block 0 32 True, new_block 32 40 False]"

text \<open>
  A list whose times are all doubles: a non-silence block of 0.125 seconds that was played
  in green mode, a silence, a non-silence block of 0.25 seconds, a long non-silence block
  and a final silence.
\<close>

definition dyadic_blocks :: "AudioBlock list" where
  "dyadic_blocks =
     [\<lparr>start = 0, end = 1 / 8, is_silence = False, include = True, visited = True\<rparr>,
      new_block (1 / 8) 1 True,
      new_block 1 (5 / 4) False,
      new_block (5 / 4) 3 False,
      new_block 3 4 True]"

section \<open>Saving and loading the state\<close>

text \<open>
  A parsed JSON document, as \<open>json.load\<close> returns it and \<open>json.dump\<close> takes it. An object
  is a Python dict: every key occurs once in its list. The text of the file is not
  modelled: a file that holds a document holds the value that \<open>json.dump\<close> was given, and
  \<open>json.load\<close> returns that value.
\<close>

datatype json =
    JNull
  | JBool bool
  | JNumber real
  | JString string
  | JArray "json list"
  | JObject "(string \<times> json) list"

text \<open>
  What a path names: nothing, something that cannot be opened, a file that is not JSON, or
  a JSON document.
\<close>

datatype disk_file = Absent | Locked | NotJson | Document json

type_synonym filesystem = "string \<Rightarrow> disk_file"

text \<open>\<open>AudioBlock.to_dict\<close>.\<close>

definition to_dict :: "AudioBlock \<Rightarrow> json" where
  "to_dict block =
     JObject [(''start'', JNumber (start block)),
              (''end'', JNumber (end block)),
              (''is_silence'', JBool (is_silence block)),
              (''include'', JBool (include block)),
              (''visited'', JBool (visited block))]"

text \<open>
  \<open>data[key]\<close> with a string key: a dict without the key raises \<open>KeyError\<close>, every other
  value raises \<open>TypeError\<close>.
\<close>

fun getitem :: "json \<Rightarrow> string \<Rightarrow> py_error + json" where
  "getitem (JObject kvs) key =
     (case map_of kvs key of None \<Rightarrow> Inl KeyError | Some v \<Rightarrow> Inr v)"
| "getitem other key = Inl TypeError"

text \<open>
  Python stores in an \<open>AudioBlock\<close> whatever values the document holds. The record is
  typed, so a document whose values have another JSON type than the schema gives them has
  no image here: its outcome is \<open>Untyped\<close>, which stands for "Python goes on with values
  this model does not represent", not for an exception.
\<close>

datatype 'a outcome = Returns 'a | Raises py_error | Untyped

text \<open>
  \<open>AudioBlock.from_dict\<close>: the five keys are read in the order \<open>start\<close>, \<open>end\<close>,
  \<open>is_silence\<close>, \<open>include\<close>, \<open>visited\<close>; the first missing one raises.
\<close>

definition from_dict :: "json \<Rightarrow> AudioBlock outcome" where
  "from_dict data =
     (case getitem data ''start'' of Inl e \<Rightarrow> Raises e | Inr s \<Rightarrow>
      case getitem data ''end'' of Inl e \<Rightarrow> Raises e | Inr en \<Rightarrow>
      case getitem data ''is_silence'' of Inl e \<Rightarrow> Raises e | Inr sil \<Rightarrow>
      case getitem data ''include'' of Inl e \<Rightarrow> Raises e | Inr inc \<Rightarrow>
      case getitem data ''visited'' of Inl e \<Rightarrow> Raises e | Inr vis \<Rightarrow>
      (case (s, en, sil, inc, vis) of
         (JNumber s', JNumber e', JBool sil', JBool inc', JBool vis') \<Rightarrow>
           Returns \<lparr>start = s', end = e', is_silence = sil', include = inc', visited = vis'\<rparr>
       | _ \<Rightarrow> Untyped))"

text \<open>
  Iterating a JSON value in a comprehension: a list gives its elements, a dict its keys, a
  string its characters, anything else raises \<open>TypeError\<close>.
\<close>

fun iterate :: "json \<Rightarrow> py_error + json list" where
  "iterate (JArray xs) = Inr xs"
| "iterate (JObject kvs) = Inr (map (\<lambda>kv. JString (fst kv)) kvs)"
| "iterate (JString s) = Inr (map (\<lambda>c. JString [c]) s)"
| "iterate other = Inl TypeError"

text \<open>
  \<open>[AudioBlock.from_dict(block_data) for block_data in ...]\<close>: the first element that
  raises ends the comprehension with its exception; an element outside the typed schema
  raises nothing.
\<close>

fun from_dicts :: "json list \<Rightarrow> AudioBlock list outcome" where
  "from_dicts [] = Returns []"
| "from_dicts (block_data # rest) =
     (case from_dict block_data of
        Raises e \<Rightarrow> Raises e
      | Untyped \<Rightarrow> (case from_dicts rest of Raises e \<Rightarrow> Raises e | _ \<Rightarrow> Untyped)
      | Returns b \<Rightarrow>
          (case from_dicts rest of
             Returns bs \<Rightarrow> Returns (b # bs)
           | Raises e \<Rightarrow> Raises e
           | Untyped \<Rightarrow> Untyped))"

text \<open>
  \<open>BlockManager.save_state\<close>: the result is the returned flag and the file system after
  the call. Nothing is written for an empty block list, and a path that cannot be opened
  makes \<open>open\<close> raise, which the method turns into \<open>False\<close>.
\<close>

definition save_state :: "BlockManager \<Rightarrow> string \<Rightarrow> filesystem \<Rightarrow> bool \<times> filesystem" where
  "save_state bm filepath fs =
     (if blocks bm = [] then (False, fs)
      else
        let state = JObject
              [(''video_path'', (case video_path bm of None \<Rightarrow> JNull | Some p \<Rightarrow> JString p)),
               (''blocks'', JArray (map to_dict (blocks bm)))]
        in (case fs filepath of
              Locked \<Rightarrow> (False, fs)
            | _ \<Rightarrow> (True, fs(filepath := Document state))))"

text \<open>
  \<open>BlockManager.load_state\<close>: the result is the returned flag and the manager after the
  call, or \<open>None\<close> for a document outside the typed schema. Every exception is caught by
  the \<open>except\<close> clause and gives \<open>False\<close>. The statements run in the source's order:
  \<open>self.video_path\<close> is assigned before the blocks are read.
\<close>

definition load_state :: "BlockManager \<Rightarrow> string \<Rightarrow> filesystem \<Rightarrow> (bool \<times> BlockManager) option" where
  "load_state bm filepath fs =
     (case fs filepath of
        Absent \<Rightarrow> Some (False, bm)
      | Locked \<Rightarrow> Some (False, bm)
      | NotJson \<Rightarrow> Some (False, bm)
      | Document state \<Rightarrow>
          (case getitem state ''video_path'' of
             Inl e \<Rightarrow> Some (False, bm)
           | Inr p \<Rightarrow>
               (case (case p of JString s \<Rightarrow> Some (Some s) | JNull \<Rightarrow> Some None | _ \<Rightarrow> None) of
                  None \<Rightarrow> None
                | Some path \<Rightarrow>
                    let bm1 = bm\<lparr>video_path := path\<rparr> in
                    (case getitem state ''blocks'' of
                       Inl e \<Rightarrow> Some (False, bm1)
                     | Inr bl \<Rightarrow>
                         (case iterate bl of
                            Inl e \<Rightarrow> Some (False, bm1)
                          | Inr items \<Rightarrow>
                              (case from_dicts items of
                                 Raises e \<Rightarrow> Some (False, bm1)
                               | Untyped \<Rightarrow> None
                               | Returns bs \<Rightarrow>
                                   let bm2 = bm1\<lparr>blocks := bs\<rparr>;
                                       bm3 = (if bs \<noteq> []
                                              then bm2\<lparr>duration := Some (end (last bs))\<rparr>
                                              else bm2)
                                   in Some (True, bm3)))))))"

text \<open>A file system with one document, at \<open>path\<close>.\<close>

definition disk_with :: "string \<Rightarrow> json \<Rightarrow> filesystem" where
  "disk_with path doc p = (if p = path then Document doc else Absent)"

text \<open>
  Two documents to load: one whose blocks neither start at 0 nor touch each other, and one
  whose only block entry is an empty object.
\<close>

definition gapped_state :: json where
  "gapped_state =
     JObject [(''video_path'', JString ''a.mp4''),
              (''blocks'', JArray [to_dict (new_block 1 2 False), to_dict (new_block 5 6 True)])]"

definition truncated_state :: json where
  "truncated_state =
     JObject [(''video_path'', JString ''b.mp4''), (''blocks'', JArray [JObject []])]"

text \<open>A file system with no file at all.\<close>

definition empty_disk :: filesystem where
  "empty_disk p = Absent"

section \<open>Exporting the included blocks\<close>

text \<open>
  \<open>get_video_properties\<close> asks ffprobe for four properties of the source; every ffmpeg
  call of the export carries them.
\<close>

record video_props =
  video_codec :: string
  audio_codec :: string
  frame_rate :: real
  audio_bitrate :: string

text \<open>
  The two kinds of ffmpeg call of \<open>export_green_blocks\<close>: cutting segment \<open>i\<close> out of the
  source from a start time for a duration, and concatenating the segments written. The
  start and the duration are the numbers that the source formats with three decimals for
  the command line. Running ffmpeg is outside the model: \<open>run\<close> tells for each call
  whether it exits with status 0 (with \<open>check=True\<close> any other status raises).
\<close>

datatype ffmpeg_call =
    CutSegment nat string real real video_props
  | ConcatSegments nat video_props

datatype export_result = NotStarted | NoSelection | ToolError | ExportComplete

text \<open>
  The \<open>for\<close> loop over \<open>enumerate(included_blocks)\<close>, with the list of the calls made so
  far; it ends at the first call that fails.
\<close>

fun cut_loop ::
  "(ffmpeg_call \<Rightarrow> bool) \<Rightarrow> string \<Rightarrow> video_props \<Rightarrow> nat \<Rightarrow> AudioBlock list
     \<Rightarrow> ffmpeg_call list \<Rightarrow> bool \<times> ffmpeg_call list" where
  "cut_loop run path props i [] calls = (True, calls)"
| "cut_loop run path props i (block # rest) calls =
     (let dur = max (1 / 10) (end block - start block);
          call = CutSegment i path (start block) dur props
      in if run call then cut_loop run path props (Suc i) rest (calls @ [call])
         else (False, calls @ [call]))"

text \<open>
  \<open>VideoPlayer.export_green_blocks\<close>: \<open>output_path\<close> is the answer of the save dialog
  (empty when cancelled) and \<open>probe\<close> the outcome of \<open>get_video_properties\<close>. The result
  is how the export ended and the ffmpeg calls it made, in order. The temporary directory
  and the list file are not modelled.
\<close>

definition export_green_blocks ::
  "(ffmpeg_call \<Rightarrow> bool) \<Rightarrow> py_error + video_props \<Rightarrow> string \<Rightarrow> VideoPlayer
     \<Rightarrow> export_result \<times> ffmpeg_call list" where
  "export_green_blocks run probe output_path vp =
     (let bm = block_manager vp in
      case video_path bm of
        None \<Rightarrow> (NotStarted, [])
      | Some path \<Rightarrow>
          if path = [] \<or> blocks bm = [] then (NotStarted, [])
          else if output_path = [] then (NotStarted, [])
          else
            (case probe of
               Inl e \<Rightarrow> (ToolError, [])
             | Inr props \<Rightarrow>
                 let included_blocks =
                       filter (\<lambda>block. \<not> is_silence block \<and> visited block \<and> include block)
                         (blocks bm)
                 in if included_blocks = [] then (NoSelection, [])
                    else
                      (case cut_loop run path props 0 included_blocks [] of
                         (False, calls) \<Rightarrow> (ToolError, calls)
                       | (True, calls) \<Rightarrow>
                           let concat = ConcatSegments (length included_blocks) props
                           in if run concat then (ExportComplete, calls @ [concat])
                              else (ToolError, calls @ [concat]))))"

text \<open>
  The segment descriptors of a list of calls: start and duration of every cut, in order.
\<close>

fun segments :: "ffmpeg_call list \<Rightarrow> (real \<times> real) list" where
  "segments [] = []"
| "segments (CutSegment i path s d props # calls) = (s, d) # segments calls"
| "segments (ConcatSegments n props # calls) = segments calls"

text \<open>The selection rule and the descriptor of the specification.\<close>

definition selected :: "AudioBlock \<Rightarrow> bool" where
  "selected b \<longleftrightarrow> \<not> is_silence b \<and> visited b \<and> include b"

definition descriptor :: "AudioBlock \<Rightarrow> real \<times> real" where
  "descriptor b = (start b, max (1 / 10) (end b - start b))"

text \<open>
  A player to export from: four blocks, of which the first and the third are non-silence,
  visited and included, the third only 0.04 seconds long; and the properties of a source.
\<close>

definition export_blocks :: "AudioBlock list" where
  "export_blocks =
     [\<lparr>start = 0, end = 2, is_silence = False, include = True, visited = True\<rparr>,
      new_block 2 3 True,
      \<lparr>start = 3, end = 304 / 100, is_silence = False, include = True, visited = True\<rparr>,
      \<lparr>start = 304 / 100, end = 5, is_silence = False, include = False, visited = True\<rparr>,
      new_block 5 6 False]"

definition export_player :: VideoPlayer where
  "export_player =
     \<lparr>block_manager = \<lparr>blocks = export_blocks, video_path = Some ''a.mp4'', duration = None\<rparr>,
      current_block_index = 0, last_jumped_block_index = 0, green_mode = True,
      media_player = \<lparr>source = Some ''a.mp4'', position = 0, playbackState = PausedState\<rparr>\<rparr>"

definition h264_props :: video_props where
  "h264_props =
     \<lparr>video_codec = ''h264'', audio_codec = ''aac'', frame_rate = 30, audio_bitrate = ''192k''\<rparr>"

definition always_ok :: "ffmpeg_call \<Rightarrow> bool" where
  "always_ok call = True"

section \<open>The other slots of the player window\<close>

text \<open>
  \<open>VideoPlayer.position_changed(position)\<close>, the slot of the player's position signal:
  the block at the position is looked up, a non-silence block is marked visited and takes
  the current mode as its include flag, and the block becomes the current one. The
  position in seconds is the float \<open>position / 1000.0\<close>. The widgets that are repainted
  are not modelled.
\<close>

definition position_changed :: "int \<Rightarrow> VideoPlayer \<Rightarrow> VideoPlayer" where
  "position_changed ms vp =
     (let current_position = py_truediv (float_round (real_of_int ms)) 1000;
          blks = blocks (block_manager vp)
      in if blks = [] then vp
         else
           let new_block_index = find_block_at blks current_position
           in if new_block_index < length blks then
                let current_block = blks ! new_block_index;
                    blks' = (if \<not> is_silence current_block
                             then blks[new_block_index :=
                                    current_block\<lparr>visited := True, include := green_mode vp\<rparr>]
                             else blks)
                in vp\<lparr>block_manager := (block_manager vp)\<lparr>blocks := blks'\<rparr>,
                      current_block_index := new_block_index\<rparr>
              else vp)"

text \<open>\<open>BlockManager.reset_blocks\<close> and the slot \<open>VideoPlayer.reset_blocks\<close> that calls it.\<close>

definition reset_blocks :: "BlockManager \<Rightarrow> BlockManager" where
  "reset_blocks bm =
     bm\<lparr>blocks := map (\<lambda>block. if \<not> is_silence block
                                 then block\<lparr>visited := False, include := True\<rparr>
                                 else block) (blocks bm)\<rparr>"

definition player_reset_blocks :: "VideoPlayer \<Rightarrow> VideoPlayer" where
  "player_reset_blocks vp =
     (if blocks (block_manager vp) = [] then vp
      else vp\<lparr>block_manager := reset_blocks (block_manager vp)\<rparr>)"

definition toggle_mode :: "VideoPlayer \<Rightarrow> VideoPlayer" where
  "toggle_mode vp = vp\<lparr>green_mode := \<not> green_mode vp\<rparr>"

definition play_pause :: "VideoPlayer \<Rightarrow> VideoPlayer" where
  "play_pause vp =
     (if playbackState (media_player vp) = PlayingState
      then vp\<lparr>media_player := pause (media_player vp)\<rparr>
      else vp\<lparr>media_player := play (media_player vp)\<rparr>)"

definition set_position :: "int \<Rightarrow> VideoPlayer \<Rightarrow> VideoPlayer" where
  "set_position ms vp = vp\<lparr>media_player := setPosition ms (media_player vp)\<rparr>"

text \<open>
  \<open>find_next_non_silence_block\<close>: forward over \<open>range(start_index + 1, len(blocks))\<close>,
  backward over \<open>range(start_index - 1, -1, -1)\<close>, where an index beyond the list raises
  \<open>IndexError\<close>.
\<close>

definition find_forward :: "AudioBlock list \<Rightarrow> nat \<Rightarrow> nat option" where
  "find_forward blks start_index =
     List.find (\<lambda>i. \<not> is_silence (blks ! i)) [start_index + 1 ..< length blks]"

fun find_backward :: "AudioBlock list \<Rightarrow> nat \<Rightarrow> py_error + nat option" where
  "find_backward blks 0 = Inr None"
| "find_backward blks (Suc i) =
     (if i < length blks
      then (if \<not> is_silence (blks ! i) then Inr (Some i) else find_backward blks i)
      else Inl IndexError)"

text \<open>
  What \<open>goto_next_block\<close> and \<open>goto_previous_block\<close> do once the index is found: the block
  becomes the current one, the player is sent to its start, and playback goes on if it
  was playing.
\<close>

definition jump_to :: "nat \<Rightarrow> VideoPlayer \<Rightarrow> VideoPlayer" where
  "jump_to next_index vp =
     (let was_playing = (playbackState (media_player vp) = PlayingState);
          target_position = py_int (py_mul (start (blocks (block_manager vp) ! next_index)) 1000);
          mp = setPosition target_position (media_player vp)
      in vp\<lparr>current_block_index := next_index,
            media_player := (if was_playing then play mp else mp)\<rparr>)"

definition goto_next_block :: "VideoPlayer \<Rightarrow> VideoPlayer" where
  "goto_next_block vp =
     (case find_forward (blocks (block_manager vp)) (current_block_index vp) of
        None \<Rightarrow> vp
      | Some next_index \<Rightarrow> jump_to next_index vp)"

definition goto_previous_block :: "VideoPlayer \<Rightarrow> VideoPlayer" where
  "goto_previous_block vp =
     (case find_backward (blocks (block_manager vp)) (current_block_index vp) of
        Inl e \<Rightarrow> vp
      | Inr None \<Rightarrow> vp
      | Inr (Some next_index) \<Rightarrow> jump_to next_index vp)"

text \<open>
  \<open>VideoPlayer.save_state\<close> and \<open>VideoPlayer.load_state\<close>, with the path that the file
  dialog returns (empty when cancelled). After a successful load the player takes the
  loaded path as its source and both indices return to 0; a loaded path that is not a
  string is outside the model, as a document outside the typed schema is.
\<close>

definition player_save_state :: "string \<Rightarrow> VideoPlayer \<times> filesystem \<Rightarrow> VideoPlayer \<times> filesystem" where
  "player_save_state filepath s =
     (case s of (vp, fs) \<Rightarrow>
        if blocks (block_manager vp) = [] then (vp, fs)
        else if filepath = [] then (vp, fs)
        else (vp, snd (save_state (block_manager vp) filepath fs)))"

definition player_load_state ::
  "string \<Rightarrow> VideoPlayer \<times> filesystem \<Rightarrow> (VideoPlayer \<times> filesystem) option" where
  "player_load_state filepath s =
     (case s of (vp, fs) \<Rightarrow>
        if filepath = [] then Some (vp, fs)
        else
          (case load_state (block_manager vp) filepath fs of
             None \<Rightarrow> None
           | Some (False, bm) \<Rightarrow> Some (vp\<lparr>block_manager := bm\<rparr>, fs)
           | Some (True, bm) \<Rightarrow>
               (case video_path bm of
                  None \<Rightarrow> None
                | Some path \<Rightarrow>
                    Some (vp\<lparr>block_manager := bm,
                             media_player := setSource path (media_player vp),
                             current_block_index := 0,
                             last_jumped_block_index := 0\<rparr>, fs))))"

text \<open>
  \<open>VideoPlayer.open_file\<close> with \<open>BlockManager.set_video_path\<close> and
  \<open>BlockManager.process_blocks\<close>: \<open>path\<close> is the answer of the file dialog, \<open>reply\<close> the
  answer to "process silence blocks now?", and \<open>output\<close> and \<open>probe_stdout\<close> are what the
  two external processes print for the file. An exception of \<open>detect_blocks\<close> leaves the
  slot after \<open>set_video_path\<close> has emptied the block list.
\<close>

definition open_file ::
  "(string \<Rightarrow> real option) \<Rightarrow> string \<Rightarrow> bool \<Rightarrow> string \<Rightarrow> string \<Rightarrow> VideoPlayer \<Rightarrow> VideoPlayer" where
  "open_file pyfloat path reply output probe_stdout vp =
     (if path = [] then vp
      else
        let bm = (block_manager vp)\<lparr>video_path := Some path, blocks := []\<rparr>;
            vp1 = vp\<lparr>media_player := setSource path (media_player vp), block_manager := bm\<rparr>
        in if reply then
             (case detect_blocks pyfloat output probe_stdout of
                Inl e \<Rightarrow> vp1
              | Inr blks \<Rightarrow>
                  vp1\<lparr>block_manager := bm\<lparr>blocks := blks\<rparr>,
                      current_block_index := 0,
                      last_jumped_block_index := 0\<rparr>)
           else vp1)"

section \<open>The session as a sequence of events\<close>

text \<open>
  Every slot that can change the session, with what the user or the player supplies. The
  state is the window together with the files on disk. The export makes ffmpeg calls and
  changes neither, so it is no event here.
\<close>

datatype event =
    OpenFile string bool string string
  | LoadState string
  | SaveState string
  | PositionChanged int
  | ResetBlocks
  | ToggleMode
  | GotoNext
  | GotoPrevious
  | PlayPause
  | SkipTimer
  | SetPosition int

fun step ::
  "(string \<Rightarrow> real option) \<Rightarrow> event \<Rightarrow> VideoPlayer \<times> filesystem
     \<Rightarrow> (VideoPlayer \<times> filesystem) option" where
  "step pyfloat (OpenFile path reply output probe_stdout) (vp, fs) =
     Some (open_file pyfloat path reply output probe_stdout vp, fs)"
| "step pyfloat (LoadState filepath) (vp, fs) = player_load_state filepath (vp, fs)"
| "step pyfloat (SaveState filepath) (vp, fs) = Some (player_save_state filepath (vp, fs))"
| "step pyfloat (PositionChanged ms) (vp, fs) = Some (position_changed ms vp, fs)"
| "step pyfloat ResetBlocks (vp, fs) = Some (player_reset_blocks vp, fs)"
| "step pyfloat ToggleMode (vp, fs) = Some (toggle_mode vp, fs)"
| "step pyfloat GotoNext (vp, fs) = Some (goto_next_block vp, fs)"
| "step pyfloat GotoPrevious (vp, fs) = Some (goto_previous_block vp, fs)"
| "step pyfloat PlayPause (vp, fs) = Some (play_pause vp, fs)"
| "step pyfloat SkipTimer (vp, fs) = Some (skip_silence vp, fs)"
| "step pyfloat (SetPosition ms) (vp, fs) = Some (set_position ms vp, fs)"

fun run_events ::
  "(string \<Rightarrow> real option) \<Rightarrow> event list \<Rightarrow> VideoPlayer \<times> filesystem
     \<Rightarrow> (VideoPlayer \<times> filesystem) option" where
  "run_events pyfloat [] s = Some s"
| "run_events pyfloat (ev # evs) s =
     (case step pyfloat ev s of None \<Rightarrow> None | Some s' \<Rightarrow> run_events pyfloat evs s')"

text \<open>
  The property of claim C10: every silence block has both flags false. For the files: the
  blocks that a document decodes to.
\<close>

definition silence_untouched :: "AudioBlock list \<Rightarrow> bool" where
  "silence_untouched blks \<longleftrightarrow>
     list_all (\<lambda>b. is_silence b \<longrightarrow> \<not> include b \<and> \<not> visited b) blks"

definition document_blocks :: "json \<Rightarrow> AudioBlock list option" where
  "document_blocks doc =
     (case getitem doc ''blocks'' of
        Inl e \<Rightarrow> None
      | Inr bl \<Rightarrow>
          (case iterate bl of
             Inl e \<Rightarrow> None
           | Inr items \<Rightarrow> (case from_dicts items of Returns bs \<Rightarrow> Some bs | _ \<Rightarrow> None)))"

definition clean_disk :: "filesystem \<Rightarrow> bool" where
  "clean_disk fs \<longleftrightarrow>
     (\<forall>path doc bs. fs path = Document doc \<and> document_blocks doc = Some bs
        \<longrightarrow> silence_untouched bs)"

text \<open>
  A window right after a video was opened and processed, with one silence from 2 to 3
  seconds in 10 seconds of video; and a state file in which that silence is marked
  included and visited.
\<close>

definition fresh_player :: VideoPlayer where
  "fresh_player =
     \<lparr>block_manager = \<lparr>blocks = build_blocks [(2, 3)] 10, video_path = Some ''a.mp4'',
                        duration = None\<rparr>,
      current_block_index = 0, last_jumped_block_index = 0, green_mode = True,
      media_player = \<lparr>source = Some ''a.mp4'', position = 0, playbackState = StoppedState\<rparr>\<rparr>"

definition marked_state :: json where
  "marked_state =
     JObject [(''video_path'', JString ''a.mp4''),
              (''blocks'', JArray
                 [to_dict (new_block 0 2 False),
                  to_dict \<lparr>start = 2, end = 3, is_silence = True, include = True, visited = True\<rparr>,
                  to_dict (new_block 3 10 False)])]"

text \<open>
  A short session: play into the first block, save, reset, play into the silence, load the
  saved state, let the skip timer fire.
\<close>

definition session_events :: "event list" where
  "session_events =
     [PositionChanged 500, SaveState ''s.json'', ResetBlocks, PositionChanged 2500,
      LoadState ''s.json'', SkipTimer]"

section \<open>Properties of the lookup\<close>

lemma first_match_None:
  "first_match k bs p = None \<longleftrightarrow> (\<forall>i<length bs. \<not> holds_position (bs ! i) p)"
proof (induction bs arbitrary: k)
  case Nil
  show ?case by simp
next
  case (Cons b bs)
  show ?case
    by (simp add: Cons.IH All_less_Suc2)
qed

lemma first_match_Some:
  "first_match k bs p = Some r \<longleftrightarrow>
     (\<exists>i<length bs. r = k + i \<and> holds_position (bs ! i) p
        \<and> (\<forall>j<i. \<not> holds_position (bs ! j) p))"
proof (induction bs arbitrary: k)
  case Nil
  show ?case by simp
next
  case (Cons b bs)
  show ?case
  proof (cases "holds_position b p")
    case True
    have "(\<exists>i<length (b # bs). r = k + i \<and> holds_position ((b # bs) ! i) p
             \<and> (\<forall>j<i. \<not> holds_position ((b # bs) ! j) p)) \<longleftrightarrow> r = k"
    proof
      assume "\<exists>i<length (b # bs). r = k + i \<and> holds_position ((b # bs) ! i) p
                \<and> (\<forall>j<i. \<not> holds_position ((b # bs) ! j) p)"
      then obtain i where i: "r = k + i" "\<forall>j<i. \<not> holds_position ((b # bs) ! j) p"
        by blast
      have "i = 0"
      proof (rule ccontr)
        assume "i \<noteq> 0"
        then have "0 < i" by simp
        with i(2) have "\<not> holds_position ((b # bs) ! 0) p" by blast
        with True show False by simp
      qed
      with i(1) show "r = k" by simp
    next
      assume "r = k"
      with True show "\<exists>i<length (b # bs). r = k + i \<and> holds_position ((b # bs) ! i) p
                \<and> (\<forall>j<i. \<not> holds_position ((b # bs) ! j) p)"
        by (intro exI[of _ 0]) simp
    qed
    with True show ?thesis by auto
  next
    case False
    have "(\<exists>i<length (b # bs). r = k + i \<and> holds_position ((b # bs) ! i) p
             \<and> (\<forall>j<i. \<not> holds_position ((b # bs) ! j) p))
          \<longleftrightarrow> (\<exists>i<length bs. r = Suc k + i \<and> holds_position (bs ! i) p
             \<and> (\<forall>j<i. \<not> holds_position (bs ! j) p))"
      (is "?L \<longleftrightarrow> ?R")
    proof
      assume ?L
      then obtain i where i: "i < length (b # bs)" "r = k + i"
        "holds_position ((b # bs) ! i) p" "\<forall>j<i. \<not> holds_position ((b # bs) ! j) p"
        by blast
      from False i(3) have "i \<noteq> 0" by (cases i) auto
      then obtain i' where i': "i = Suc i'" by (cases i) auto
      have "\<forall>j<i'. \<not> holds_position (bs ! j) p"
      proof (intro allI impI)
        fix j assume "j < i'"
        then have "Suc j < i" using i' by simp
        with i(4) have "\<not> holds_position ((b # bs) ! Suc j) p" by blast
        then show "\<not> holds_position (bs ! j) p" by simp
      qed
      with i i' show ?R by (intro exI[of _ i']) simp
    next
      assume ?R
      then obtain i where i: "i < length bs" "r = Suc k + i"
        "holds_position (bs ! i) p" "\<forall>j<i. \<not> holds_position (bs ! j) p"
        by blast
      have "\<forall>j<Suc i. \<not> holds_position ((b # bs) ! j) p"
      proof (intro allI impI)
        fix j assume "j < Suc i"
        then show "\<not> holds_position ((b # bs) ! j) p"
          using False i(4) by (cases j) auto
      qed
      with i show ?L by (intro exI[of _ "Suc i"]) simp
    qed
    with False show ?thesis by (simp add: Cons.IH)
  qed
qed

text \<open>
  Claim C7. For every block list and every position \<open>p\<close>, the lookup returns the smallest
  index whose block satisfies \<open>start \<le> p \<le> end\<close> (both ends inclusive, so a time shared
  by two neighbours resolves to the earlier one), and it returns index 0 when no block
  holds \<open>p\<close>, which covers the empty list and a position out of range.
\<close>

theorem find_block_at_first_match:
  "(\<forall>i. i < length blks \<and> holds_position (blks ! i) p
         \<and> (\<forall>j<i. \<not> holds_position (blks ! j) p)
       \<longrightarrow> find_block_at blks p = i)
   \<and> ((\<forall>i<length blks. \<not> holds_position (blks ! i) p)
       \<longrightarrow> find_block_at blks p = 0)"
proof (intro conjI allI impI)
  fix i
  assume "i < length blks \<and> holds_position (blks ! i) p
            \<and> (\<forall>j<i. \<not> holds_position (blks ! j) p)"
  then have "first_match 0 blks p = Some i"
    unfolding first_match_Some by (intro exI[of _ i]) simp
  then show "find_block_at blks p = i"
    by (simp add: find_block_at_def)
next
  assume "\<forall>i<length blks. \<not> holds_position (blks ! i) p"
  then have "first_match 0 blks p = None"
    by (simp add: first_match_None)
  then show "find_block_at blks p = 0"
    by (simp add: find_block_at_def)
qed

theorem find_block_at_first_match_witness:
  "find_block_at [new_block 0 2 False, new_block 2 3 True, new_block 3 4 False] 3 = 1
   \<and> find_block_at [new_block 0 2 False, new_block 2 3 True, new_block 3 4 False] 9 = 0
   \<and> find_block_at [] 1 = 0"
proof -
  let ?bs = "[new_block 0 2 False, new_block 2 3 True, new_block 3 4 False]"
  have a: "(1::nat) < length ?bs \<and> holds_position (?bs ! 1) 3
             \<and> (\<forall>j<1::nat. \<not> holds_position (?bs ! j) 3)"
    by (simp add: holds_position_def new_block_def)
  have b: "\<forall>i<length ?bs. \<not> holds_position (?bs ! i) 9"
    by (simp add: All_less_Suc2 holds_position_def new_block_def)
  have c: "\<forall>i<length ([]::AudioBlock list). \<not> holds_position ([] ! i) 1"
    by simp
  from find_block_at_first_match [of ?bs 3] a have "find_block_at ?bs 3 = 1"
    by blast
  moreover from find_block_at_first_match [of ?bs 9] b have "find_block_at ?bs 9 = 0"
    by blast
  moreover from find_block_at_first_match [of "[]" 1] c have "find_block_at [] 1 = 0"
    by blast
  ultimately show ?thesis by blast
qed

section \<open>Properties of the block builder\<close>

lemma tiles_append: "tiles a (xs @ ys) z \<longleftrightarrow> (\<exists>m. tiles a xs m \<and> tiles m ys z)"
  by (induction xs arbitrary: a) auto

lemma tiles_snoc: "tiles a (xs @ [b]) z \<longleftrightarrow> tiles a xs (start b) \<and> start b < end b \<and> end b = z"
  by (auto simp: tiles_append)

lemma no_adjacent_speech_snoc:
  "no_adjacent_speech (xs @ [b]) \<longleftrightarrow>
     no_adjacent_speech xs \<and> (xs = [] \<or> is_silence (last xs) \<or> is_silence b)"
  by (induction xs rule: no_adjacent_speech.induct) auto

lemma silence_loop_invariant:
  "valid_intervals t ivs d \<Longrightarrow> tiles a bs t \<Longrightarrow> no_adjacent_speech bs \<Longrightarrow>
   bs = [] \<or> is_silence (last bs) \<Longrightarrow> silence_loop ivs (bs, t) = (bs', t') \<Longrightarrow>
   tiles a bs' t' \<and> t' \<le> d \<and> no_adjacent_speech bs' \<and> (bs' = [] \<or> is_silence (last bs'))"
proof (induction ivs arbitrary: bs t)
  case Nil
  then show ?case by simp
next
  case (Cons iv ivs)
  obtain s e where iv: "iv = (s, e)" by (cases iv)
  let ?bs = "(if s > t then bs @ [new_block t s False] else bs) @ [new_block s e True]"
  from Cons.prems iv have v: "t \<le> s" "s < e" "valid_intervals e ivs d" by simp_all
  have 1: "tiles a ?bs e"
    using Cons.prems(2) v by (auto simp: tiles_snoc new_block_def)
  have 2: "no_adjacent_speech ?bs"
    using Cons.prems(3,4) by (auto simp: no_adjacent_speech_snoc new_block_def)
  have 3: "?bs = [] \<or> is_silence (last ?bs)"
    by (simp add: new_block_def)
  have 4: "silence_loop ivs (?bs, e) = (bs', t')"
    using Cons.prems(5) iv by simp
  from Cons.IH[OF v(3) 1 2 3 4] show ?case .
qed

lemma tiles_bounds:
  "tiles a bs z \<Longrightarrow> i < length bs \<Longrightarrow>
     a \<le> start (bs ! i) \<and> start (bs ! i) < end (bs ! i) \<and> end (bs ! i) \<le> z"
proof (induction bs arbitrary: a i)
  case Nil
  then show ?case by simp
next
  case (Cons b bs)
  show ?case
  proof (cases i)
    case 0
    from Cons.prems have "tiles (end b) bs z" by simp
    have "end b \<le> z"
    proof (cases bs)
      case Nil
      with Cons.prems show ?thesis by simp
    next
      case (Cons c cs)
      with Cons.IH[of "end b" 0] \<open>tiles (end b) bs z\<close> show ?thesis by simp
    qed
    with Cons.prems 0 show ?thesis by simp
  next
    case (Suc j)
    with Cons.prems have "tiles (end b) bs z" "j < length bs" by simp_all
    from Cons.IH[OF this] Cons.prems Suc show ?thesis by simp
  qed
qed

lemma tiles_adjacent:
  "tiles a bs z \<Longrightarrow> Suc i < length bs \<Longrightarrow> end (bs ! i) = start (bs ! Suc i)"
proof (induction bs arbitrary: a i)
  case Nil
  then show ?case by simp
next
  case (Cons b bs)
  show ?case
  proof (cases i)
    case 0
    with Cons.prems show ?thesis by (cases bs) simp_all
  next
    case (Suc j)
    with Cons.prems have "tiles (end b) bs z" "Suc j < length bs" by simp_all
    from Cons.IH[OF this] Suc show ?thesis by simp
  qed
qed

lemma tiles_ends:
  "tiles a bs z \<Longrightarrow> bs \<noteq> [] \<Longrightarrow> start (hd bs) = a \<and> end (last bs) = z"
  by (induction bs arbitrary: a) auto

lemma tiles_cover:
  "tiles a bs z \<Longrightarrow> a \<le> t \<Longrightarrow> t < z \<Longrightarrow>
     \<exists>!i. i < length bs \<and> start (bs ! i) \<le> t \<and> t < end (bs ! i)"
proof (induction bs arbitrary: a)
  case Nil
  then show ?case by simp
next
  case (Cons b bs)
  from Cons.prems have b: "start b = a" "start b < end b" "tiles (end b) bs z"
    by simp_all
  show ?case
  proof (cases "t < end b")
    case True
    show ?thesis
    proof (rule ex1I[of _ 0])
      show "0 < length (b # bs) \<and> start ((b # bs) ! 0) \<le> t \<and> t < end ((b # bs) ! 0)"
        using True b Cons.prems by simp
    next
      fix i
      assume i: "i < length (b # bs) \<and> start ((b # bs) ! i) \<le> t \<and> t < end ((b # bs) ! i)"
      show "i = 0"
      proof (cases i)
        case 0
        then show ?thesis .
      next
        case (Suc j)
        with i have "j < length bs" "start (bs ! j) \<le> t" by simp_all
        with tiles_bounds[OF b(3), of j] True show ?thesis by simp
      qed
    qed
  next
    case False
    then have "end b \<le> t" by simp
    from Cons.IH[OF b(3) this Cons.prems(3)]
    obtain j where j: "j < length bs \<and> start (bs ! j) \<le> t \<and> t < end (bs ! j)"
      and uniq: "\<And>k. k < length bs \<and> start (bs ! k) \<le> t \<and> t < end (bs ! k) \<Longrightarrow> k = j"
      by blast
    show ?thesis
    proof (rule ex1I[of _ "Suc j"])
      show "Suc j < length (b # bs) \<and> start ((b # bs) ! Suc j) \<le> t
              \<and> t < end ((b # bs) ! Suc j)"
        using j by simp
    next
      fix i
      assume i: "i < length (b # bs) \<and> start ((b # bs) ! i) \<le> t \<and> t < end ((b # bs) ! i)"
      show "i = Suc j"
      proof (cases i)
        case 0
        with i False show ?thesis by simp
      next
        case (Suc k)
        with i have "k < length bs \<and> start (bs ! k) \<le> t \<and> t < end (bs ! k)" by simp
        from uniq[OF this] Suc show ?thesis by simp
      qed
    qed
  qed
qed

lemma no_adjacent_speech_nth:
  "no_adjacent_speech bs \<Longrightarrow> Suc i < length bs \<Longrightarrow>
     is_silence (bs ! i) \<or> is_silence (bs ! Suc i)"
proof (induction bs arbitrary: i rule: no_adjacent_speech.induct)
  case (1 a b bs)
  show ?case
  proof (cases i)
    case 0
    with "1.prems" show ?thesis by simp
  next
    case (Suc j)
    with "1.prems" have "no_adjacent_speech (b # bs)" "Suc j < length (b # bs)" by simp_all
    from "1.IH"[OF this] Suc show ?thesis by simp
  qed
qed simp_all

lemma build_blocks_tiles:
  assumes "valid_intervals 0 ivs d" "0 < d"
  shows "tiles 0 (build_blocks ivs d) d \<and> no_adjacent_speech (build_blocks ivs d)"
proof -
  obtain bs t where loop: "silence_loop ivs ([], 0) = (bs, t)"
    by (cases "silence_loop ivs ([], 0)")
  have inv: "tiles 0 bs t \<and> t \<le> d \<and> no_adjacent_speech bs \<and> (bs = [] \<or> is_silence (last bs))"
    by (rule silence_loop_invariant[OF assms(1) _ _ _ loop]) simp_all
  show ?thesis
  proof (cases "t < d")
    case True
    with inv loop show ?thesis
      by (auto simp: build_blocks_def tiles_snoc no_adjacent_speech_snoc new_block_def)
  next
    case False
    with inv have "t = d" by simp
    with inv loop show ?thesis
      by (simp add: build_blocks_def)
  qed
qed

lemma silence_loop_silences:
  "filter is_silence (fst (silence_loop ivs (bs, t))) =
     filter is_silence bs @ map (\<lambda>(s, e). new_block s e True) ivs"
proof (induction ivs arbitrary: bs t)
  case Nil
  show ?case by simp
next
  case (Cons iv ivs)
  obtain s e where iv: "iv = (s, e)" by (cases iv)
  show ?case
    by (simp add: iv Cons.IH new_block_def)
qed

lemma build_blocks_silences:
  "filter is_silence (build_blocks ivs d) = map (\<lambda>(s, e). new_block s e True) ivs"
proof -
  obtain bs t where loop: "silence_loop ivs ([], 0) = (bs, t)"
    by (cases "silence_loop ivs ([], 0)")
  from silence_loop_silences[of ivs "[]" 0] loop
  have "filter is_silence bs = map (\<lambda>(s, e). new_block s e True) ivs" by simp
  with loop show ?thesis
    by (simp add: build_blocks_def new_block_def)
qed

lemma silence_loop_fresh:
  "list_all (\<lambda>b. b = new_block (start b) (end b) (is_silence b)) bs \<Longrightarrow>
   list_all (\<lambda>b. b = new_block (start b) (end b) (is_silence b)) (fst (silence_loop ivs (bs, t)))"
proof (induction ivs arbitrary: bs t)
  case Nil
  then show ?case by simp
next
  case (Cons iv ivs)
  obtain s e where iv: "iv = (s, e)" by (cases iv)
  have "list_all (\<lambda>b. b = new_block (start b) (end b) (is_silence b))
          ((if s > t then bs @ [new_block t s False] else bs) @ [new_block s e True])"
    using Cons.prems by (simp add: new_block_def)
  from Cons.IH[OF this] show ?case by (simp add: iv)
qed

lemma build_blocks_fresh:
  "list_all (\<lambda>b. b = new_block (start b) (end b) (is_silence b)) (build_blocks ivs d)"
proof -
  obtain bs t where loop: "silence_loop ivs ([], 0) = (bs, t)"
    by (cases "silence_loop ivs ([], 0)")
  have "list_all (\<lambda>b. b = new_block (start b) (end b) (is_silence b))
          (fst (silence_loop ivs ([], 0)))"
    by (rule silence_loop_fresh) simp
  with loop show ?thesis
    by (simp add: build_blocks_def new_block_def)
qed

text \<open>
  Claim C2. For silence intervals that are ordered, do not overlap and lie within
  \<open>[0, d)\<close>, and a positive duration \<open>d\<close>, the blocks built cover \<open>[0, d)\<close>: every time
  of \<open>[0, d)\<close> lies in exactly one block, every block is a non-empty span inside \<open>[0, d]\<close>,
  each block ends where the next starts, the first starts at 0, the last ends at \<open>d\<close>, and
  no two consecutive blocks are both non-silence. For every input the silence blocks of
  the result are exactly the given intervals, one silence block \<open>[s, e)\<close> per interval and
  in the same order, and every block is as \<open>AudioBlock\<close> creates it, so the non-silence
  blocks are the ones that fill the gaps. The intervals \<open>[(2, 3), (5, 5.5)]\<close> with
  duration 10 give the five blocks of the scenario, and no interval at all gives one
  non-silence block over the whole duration.
\<close>

theorem build_blocks_covers_timeline:
  "(valid_intervals 0 ivs d \<and> 0 < d \<longrightarrow>
      (\<forall>t. 0 \<le> t \<and> t < d \<longrightarrow>
         (\<exists>!i. i < length (build_blocks ivs d)
            \<and> start (build_blocks ivs d ! i) \<le> t \<and> t < end (build_blocks ivs d ! i)))
    \<and> (\<forall>i<length (build_blocks ivs d).
         0 \<le> start (build_blocks ivs d ! i)
         \<and> start (build_blocks ivs d ! i) < end (build_blocks ivs d ! i)
         \<and> end (build_blocks ivs d ! i) \<le> d)
    \<and> (\<forall>i. Suc i < length (build_blocks ivs d) \<longrightarrow>
         end (build_blocks ivs d ! i) = start (build_blocks ivs d ! Suc i))
    \<and> build_blocks ivs d \<noteq> []
    \<and> start (hd (build_blocks ivs d)) = 0
    \<and> end (last (build_blocks ivs d)) = d
    \<and> (\<forall>i. Suc i < length (build_blocks ivs d) \<longrightarrow>
         is_silence (build_blocks ivs d ! i) \<or> is_silence (build_blocks ivs d ! Suc i)))
   \<and> filter is_silence (build_blocks ivs d) = map (\<lambda>(s, e). new_block s e True) ivs
   \<and> (\<forall>i<length (build_blocks ivs d).
         build_blocks ivs d ! i =
           new_block (start (build_blocks ivs d ! i)) (end (build_blocks ivs d ! i))
             (is_silence (build_blocks ivs d ! i)))
   \<and> build_blocks [(2, 3), (5, 11 / 2)] 10 =
       [new_block 0 2 False, new_block 2 3 True, new_block 3 5 False,
        new_block 5 (11 / 2) True, new_block (11 / 2) 10 False]
   \<and> (0 < d \<longrightarrow> build_blocks [] d = [new_block 0 d False])"
proof (intro conjI impI)
  show "filter is_silence (build_blocks ivs d) = map (\<lambda>(s, e). new_block s e True) ivs"
    by (rule build_blocks_silences)
next
  show "\<forall>i<length (build_blocks ivs d).
         build_blocks ivs d ! i =
           new_block (start (build_blocks ivs d ! i)) (end (build_blocks ivs d ! i))
             (is_silence (build_blocks ivs d ! i))"
    using build_blocks_fresh [of ivs d] by (simp add: list_all_length)
next
  show "build_blocks [(2, 3), (5, 11 / 2)] 10 =
       [new_block 0 2 False, new_block 2 3 True, new_block 3 5 False,
        new_block 5 (11 / 2) True, new_block (11 / 2) 10 False]"
    by (simp add: build_blocks_def)
next
  assume "0 < d"
  then show "build_blocks [] d = [new_block 0 d False]"
    by (simp add: build_blocks_def)
next
  assume a: "valid_intervals 0 ivs d \<and> 0 < d"
  let ?B = "build_blocks ivs d"
  from a build_blocks_tiles[of ivs d]
  have t: "tiles 0 ?B d" and n: "no_adjacent_speech ?B" by simp_all
  from t a have ne: "?B \<noteq> []" by (cases ?B) auto
  show "?B \<noteq> []" by (rule ne)
  show "start (hd ?B) = 0" using tiles_ends[OF t ne] by simp
  show "end (last ?B) = d" using tiles_ends[OF t ne] by simp
  show "\<forall>t. 0 \<le> t \<and> t < d \<longrightarrow>
         (\<exists>!i. i < length ?B \<and> start (?B ! i) \<le> t \<and> t < end (?B ! i))"
    using tiles_cover[OF t] by blast
  show "\<forall>i<length ?B. 0 \<le> start (?B ! i) \<and> start (?B ! i) < end (?B ! i) \<and> end (?B ! i) \<le> d"
    using tiles_bounds[OF t] by blast
  show "\<forall>i. Suc i < length ?B \<longrightarrow> end (?B ! i) = start (?B ! Suc i)"
    using tiles_adjacent[OF t] by blast
  show "\<forall>i. Suc i < length ?B \<longrightarrow> is_silence (?B ! i) \<or> is_silence (?B ! Suc i)"
    using no_adjacent_speech_nth[OF n] by blast
qed

theorem build_blocks_covers_timeline_witness:
  "valid_intervals 0 [(2, 3), (5, 11 / 2)] 10 \<and> (0::real) < 10
   \<and> (\<exists>!i. i < length (build_blocks [(2, 3), (5, 11 / 2)] 10)
         \<and> start (build_blocks [(2, 3), (5, 11 / 2)] 10 ! i) \<le> 4
         \<and> 4 < end (build_blocks [(2, 3), (5, 11 / 2)] 10 ! i))
   \<and> start (hd (build_blocks [(2, 3), (5, 11 / 2)] 10)) = 0
   \<and> end (last (build_blocks [(2, 3), (5, 11 / 2)] 10)) = 10
   \<and> filter is_silence (build_blocks [(2, 3), (5, 11 / 2)] 10) =
       [new_block 2 3 True, new_block 5 (11 / 2) True]
   \<and> build_blocks [] 10 = [new_block 0 10 False]"
proof -
  let ?ivs = "[(2, 3), (5, 11 / 2)] :: (real \<times> real) list"
  have h: "valid_intervals 0 ?ivs 10 \<and> (0::real) < 10"
    by simp
  note inst = build_blocks_covers_timeline [of ?ivs 10]
  from inst h have cover: "\<forall>t. 0 \<le> t \<and> t < 10 \<longrightarrow>
      (\<exists>!i. i < length (build_blocks ?ivs 10)
         \<and> start (build_blocks ?ivs 10 ! i) \<le> t \<and> t < end (build_blocks ?ivs 10 ! i))"
    by blast
  have four: "\<exists>!i. i < length (build_blocks ?ivs 10)
         \<and> start (build_blocks ?ivs 10 ! i) \<le> 4 \<and> 4 < end (build_blocks ?ivs 10 ! i)"
    using cover [rule_format, of 4] by simp
  from inst h have ends: "start (hd (build_blocks ?ivs 10)) = 0"
    "end (last (build_blocks ?ivs 10)) = 10"
    by blast+
  from inst h have none: "build_blocks [] 10 = [new_block 0 10 False]"
    by blast
  from inst have "filter is_silence (build_blocks ?ivs 10) =
      map (\<lambda>(s, e). new_block s e True) ?ivs"
    by blast
  then have sil: "filter is_silence (build_blocks ?ivs 10) =
       [new_block 2 3 True, new_block 5 (11 / 2) True]"
    by simp
  from h four ends sil none show ?thesis by blast
qed

section \<open>Properties of the analyzer reader\<close>




lemma scan_sample:
  "scan_lines decimal_float (py_split [CHR 0x0A] sample_output) ([], []) = Inr ([2, 19 / 2], [3])"
  by (simp add: sample_output_def marker_time_def decimal_float_def unsigned_decimal_def digit_def
      strip_def is_space_def)



text \<open>
  Claim C8 does not hold as stated: the probe text \<open>0.0\<close> is read as the duration 0, and
  \<open>detect_blocks\<close> returns a block list (the empty one) instead of failing.
\<close>

theorem detect_blocks_zero_duration_counterexample:
  "decimal_float (strip (''0.0'' @ [CHR 0x0A])) = Some 0
   \<and> detect_blocks decimal_float [] (''0.0'' @ [CHR 0x0A]) = Inr []"
  by (simp add: detect_blocks_def build_blocks_def decimal_float_def unsigned_decimal_def digit_def
      strip_def is_space_def)

text \<open>
  Claim C8, amended. When the probe text is not a number, \<open>float\<close> raises and
  \<open>detect_blocks\<close> ends with that exception (a \<open>ValueError\<close>), returning no block list.
  A duration that is a number is never checked: with the markers read as
  (\<open>starts\<close>, \<open>ends\<close>) the result is the block list built from \<open>zip(starts, ends)\<close> for
  every duration \<open>d\<close>, and for \<open>d \<le> 0\<close> and no marker it is the empty list.
\<close>

theorem detect_blocks_duration_unchecked:
  "(pyfloat (strip probe_stdout) = None \<longrightarrow>
      (\<exists>e. detect_blocks pyfloat output probe_stdout = Inl e))
   \<and> (pyfloat (strip probe_stdout) = Some d
        \<and> scan_lines pyfloat (py_split [CHR 0x0A] output) ([], []) = Inr (starts, ends) \<longrightarrow>
      detect_blocks pyfloat output probe_stdout = Inr (build_blocks (zip starts ends) d))
   \<and> (pyfloat (strip probe_stdout) = Some d \<and> d \<le> 0
        \<and> scan_lines pyfloat (py_split [CHR 0x0A] output) ([], []) = Inr ([], []) \<longrightarrow>
      detect_blocks pyfloat output probe_stdout = Inr [])"
  by (auto simp: detect_blocks_def build_blocks_def split: sum.splits)

theorem detect_blocks_duration_unchecked_witness:
  "decimal_float (strip []) = None
   \<and> (\<exists>e. detect_blocks decimal_float sample_output [] = Inl e)
   \<and> decimal_float (strip ''-1.5'') = Some (- (3 / 2))
   \<and> detect_blocks decimal_float sample_output ''-1.5'' = Inr [new_block 0 2 False, new_block 2 3 True]
   \<and> detect_blocks decimal_float [] ''-1.5'' = Inr []"
proof -
  have n: "decimal_float (strip []) = None"
    by (simp add: decimal_float_def strip_def)
  have m: "decimal_float (strip ''-1.5'') = Some (- (3 / 2))"
    by (simp add: decimal_float_def unsigned_decimal_def digit_def strip_def is_space_def)
  have e: "scan_lines decimal_float (py_split [CHR 0x0A] []) ([], []) = Inr ([], [])"
    by simp
  have 1: "\<exists>e. detect_blocks decimal_float sample_output [] = Inl e"
    using detect_blocks_duration_unchecked [of decimal_float "[]" sample_output] n by blast
  have "detect_blocks decimal_float sample_output ''-1.5'' =
          Inr (build_blocks (zip [2, 19 / 2] [3]) (- (3 / 2)))"
    using detect_blocks_duration_unchecked
      [of decimal_float "''-1.5''" sample_output "- (3 / 2)" "[2, 19 / 2]" "[3]"] m scan_sample
    by blast
  then have 2: "detect_blocks decimal_float sample_output ''-1.5'' =
      Inr [new_block 0 2 False, new_block 2 3 True]"
    by (simp add: build_blocks_def)
  have neg: "- (3 / 2) \<le> (0::real)"
    by simp
  have 3: "detect_blocks decimal_float [] ''-1.5'' = Inr []"
    using detect_blocks_duration_unchecked [of decimal_float "''-1.5''" "[]" "- (3 / 2)" "[]" "[]"]
      m e neg by blast
  from n m 1 2 3 show ?thesis by blast
qed

section \<open>Properties of the silence skip\<close>

lemma next_suitable_unfold:
  "next_suitable blks n =
     (if n < length blks then (if suitable (blks ! n) then n else next_suitable blks (n + 1))
      else n)"
  unfolding suitable_def by (rule next_suitable.simps)

lemma next_suitable_found:
  "n \<le> j \<Longrightarrow> j < length blks \<Longrightarrow> suitable (blks ! j) \<Longrightarrow>
   (\<forall>k. n \<le> k \<and> k < j \<longrightarrow> \<not> suitable (blks ! k)) \<Longrightarrow> next_suitable blks n = j"
proof (induction blks n rule: next_suitable.induct)
  case (1 blks n)
  show ?case
  proof (cases "n = j")
    case True
    with "1.prems" show ?thesis
      by (subst next_suitable_unfold) simp
  next
    case False
    with "1.prems" have lt: "n < j" by simp
    with "1.prems" have ns: "\<not> suitable (blks ! n)" by simp
    from lt "1.prems" have n: "n < length blks" by simp
    have "next_suitable blks (n + 1) = j"
    proof (rule "1.IH")
      show "n < length blks" by (rule n)
      show "\<not> (\<not> is_silence (blks ! n)
                \<and> float_round (3 / 10) \<le> py_sub (end (blks ! n)) (start (blks ! n)))"
        using ns by (simp add: suitable_def)
      show "n + 1 \<le> j" using lt by simp
      show "j < length blks" by (rule "1.prems")
      show "suitable (blks ! j)" by (rule "1.prems")
      show "\<forall>k. n + 1 \<le> k \<and> k < j \<longrightarrow> \<not> suitable (blks ! k)"
        using "1.prems"(4) by simp
    qed
    with n ns show ?thesis
      by (subst next_suitable_unfold) simp
  qed
qed

lemma next_suitable_none:
  "(\<forall>k. n \<le> k \<and> k < length blks \<longrightarrow> \<not> suitable (blks ! k)) \<Longrightarrow>
   \<not> next_suitable blks n < length blks"
proof (induction blks n rule: next_suitable.induct)
  case (1 blks n)
  show ?case
  proof (cases "n < length blks")
    case True
    with "1.prems" have ns: "\<not> suitable (blks ! n)" by simp
    have "\<not> next_suitable blks (n + 1) < length blks"
    proof (rule "1.IH")
      show "n < length blks" by (rule True)
      show "\<not> (\<not> is_silence (blks ! n)
                \<and> float_round (3 / 10) \<le> py_sub (end (blks ! n)) (start (blks ! n)))"
        using ns by (simp add: suitable_def)
      show "\<forall>k. n + 1 \<le> k \<and> k < length blks \<longrightarrow> \<not> suitable (blks ! k)"
        using "1.prems" by simp
    qed
    with True ns show ?thesis
      by (subst next_suitable_unfold) simp
  next
    case False
    then show ?thesis
      by (subst next_suitable_unfold) simp
  qed
qed

lemma clamp_update:
  "(if length (blocks (block_manager vp)) \<le> current_block_index vp
    then vp\<lparr>current_block_index := length (blocks (block_manager vp)) - 1\<rparr> else vp)
   = vp\<lparr>current_block_index := clamped_index vp\<rparr>"
  by (simp add: clamped_index_def)

lemma play_after_seek:
  "play (setPosition ms mp) = mp\<lparr>position := ms, playbackState := PlayingState\<rparr>"
  "playbackState (setPosition ms mp) = PlayingState \<Longrightarrow>
     setPosition ms mp = mp\<lparr>position := ms, playbackState := PlayingState\<rparr>"
  by (cases mp; simp add: setPosition_def play_def)+

lemma skip_silence_unfold:
  assumes "blocks (block_manager vp) \<noteq> []"
  shows "skip_silence vp =
     (if time_in_block vp < float_round (1 / 10)
      then vp\<lparr>current_block_index := clamped_index vp\<rparr>
      else if skip_condition (blocks (block_manager vp) ! clamped_index vp)
      then (if next_suitable (blocks (block_manager vp)) (clamped_index vp + 1)
                < length (blocks (block_manager vp))
            then vp\<lparr>media_player := (media_player vp)
                      \<lparr>position := seek_target (blocks (block_manager vp)
                          ! next_suitable (blocks (block_manager vp)) (clamped_index vp + 1)),
                       playbackState := PlayingState\<rparr>,
                    current_block_index :=
                      next_suitable (blocks (block_manager vp)) (clamped_index vp + 1)\<rparr>
            else vp\<lparr>media_player := stop (media_player vp),
                    current_block_index := clamped_index vp\<rparr>)
      else vp\<lparr>current_block_index := clamped_index vp\<rparr>)"
proof -
  define vp1 where "vp1 = vp\<lparr>current_block_index := clamped_index vp\<rparr>"
  have sel: "current_block_index vp1 = clamped_index vp" "media_player vp1 = media_player vp"
    "block_manager vp1 = block_manager vp"
    by (simp_all add: vp1_def)
  have c: "(if length (blocks (block_manager vp)) \<le> current_block_index vp
    then vp\<lparr>current_block_index := length (blocks (block_manager vp)) - 1\<rparr> else vp) = vp1"
    unfolding vp1_def by (rule clamp_update)
  have upd: "vp1\<lparr>media_player := m, current_block_index := n\<rparr>
               = vp\<lparr>media_player := m, current_block_index := n\<rparr>"
    "vp1\<lparr>media_player := m\<rparr> = vp\<lparr>media_player := m, current_block_index := clamped_index vp\<rparr>"
    for m n
    by (simp_all add: vp1_def)
  show ?thesis
    unfolding skip_silence_def Let_def c
    using assms
    by (auto simp: sel upd time_in_block_def skip_condition_def seek_target_def
          play_after_seek vp1_def[symmetric])
qed


lemma clamped_index_less:
  "blocks (block_manager vp) \<noteq> [] \<Longrightarrow> clamped_index vp < length (blocks (block_manager vp))"
  by (cases "blocks (block_manager vp)") (auto simp: clamped_index_def)

text \<open>
  Claim C3, amended. For every block list and every current block index: with an empty
  list the evaluation changes nothing; otherwise an index beyond the list is first set to
  the last index (an index inside the list stays). With the time in the block computed in
  floats as \<open>position / 1000.0 - start\<close>, the evaluation changes nothing more while that
  time is below the float 0.1. After that it skips exactly when the current block is
  silence and not included, or is not silence and its float duration \<open>end - start\<close> is
  below the float 0.2, whatever its include flag; otherwise it changes nothing more. A
  skip goes to the nearest later block that is not silence and whose float duration is at
  least the float 0.3: the player is sent to \<open>int((s + 0.05) * 1000)\<close> milliseconds,
  computed in floats from that block's start \<open>s\<close>, the playback state is playing, and the
  block becomes the current one. When no later block qualifies, the player is stopped.
\<close>

theorem skip_silence_decision:
  "(blocks (block_manager vp) = [] \<longrightarrow> skip_silence vp = vp)
   \<and> (current_block_index vp < length (blocks (block_manager vp)) \<longrightarrow>
        clamped_index vp = current_block_index vp)
   \<and> (blocks (block_manager vp) \<noteq> [] \<and> time_in_block vp < float_round (1 / 10) \<longrightarrow>
        skip_silence vp = vp\<lparr>current_block_index := clamped_index vp\<rparr>)
   \<and> (blocks (block_manager vp) \<noteq> [] \<and> \<not> time_in_block vp < float_round (1 / 10)
        \<and> \<not> skip_condition (blocks (block_manager vp) ! clamped_index vp) \<longrightarrow>
        skip_silence vp = vp\<lparr>current_block_index := clamped_index vp\<rparr>)
   \<and> (\<forall>j. blocks (block_manager vp) \<noteq> [] \<and> \<not> time_in_block vp < float_round (1 / 10)
          \<and> skip_condition (blocks (block_manager vp) ! clamped_index vp)
          \<and> clamped_index vp < j \<and> j < length (blocks (block_manager vp))
          \<and> suitable (blocks (block_manager vp) ! j)
          \<and> (\<forall>k. clamped_index vp < k \<and> k < j \<longrightarrow> \<not> suitable (blocks (block_manager vp) ! k))
        \<longrightarrow> skip_silence vp =
              vp\<lparr>media_player := (media_player vp)
                    \<lparr>position := seek_target (blocks (block_manager vp) ! j),
                     playbackState := PlayingState\<rparr>,
                 current_block_index := j\<rparr>)
   \<and> (blocks (block_manager vp) \<noteq> [] \<and> \<not> time_in_block vp < float_round (1 / 10)
        \<and> skip_condition (blocks (block_manager vp) ! clamped_index vp)
        \<and> (\<forall>k. clamped_index vp < k \<and> k < length (blocks (block_manager vp))
               \<longrightarrow> \<not> suitable (blocks (block_manager vp) ! k))
        \<longrightarrow> skip_silence vp =
              vp\<lparr>media_player := stop (media_player vp),
                 current_block_index := clamped_index vp\<rparr>
            \<and> playbackState (media_player (skip_silence vp)) = StoppedState)"
proof (intro conjI allI impI)
  assume "blocks (block_manager vp) = []"
  then show "skip_silence vp = vp" by (simp add: skip_silence_def)
next
  assume "current_block_index vp < length (blocks (block_manager vp))"
  then show "clamped_index vp = current_block_index vp" by (simp add: clamped_index_def)
next
  assume "blocks (block_manager vp) \<noteq> [] \<and> time_in_block vp < float_round (1 / 10)"
  then show "skip_silence vp = vp\<lparr>current_block_index := clamped_index vp\<rparr>"
    by (simp add: skip_silence_unfold)
next
  assume "blocks (block_manager vp) \<noteq> [] \<and> \<not> time_in_block vp < float_round (1 / 10)
        \<and> \<not> skip_condition (blocks (block_manager vp) ! clamped_index vp)"
  then show "skip_silence vp = vp\<lparr>current_block_index := clamped_index vp\<rparr>"
    by (simp add: skip_silence_unfold)
next
  fix j
  assume a: "blocks (block_manager vp) \<noteq> [] \<and> \<not> time_in_block vp < float_round (1 / 10)
          \<and> skip_condition (blocks (block_manager vp) ! clamped_index vp)
          \<and> clamped_index vp < j \<and> j < length (blocks (block_manager vp))
          \<and> suitable (blocks (block_manager vp) ! j)
          \<and> (\<forall>k. clamped_index vp < k \<and> k < j \<longrightarrow> \<not> suitable (blocks (block_manager vp) ! k))"
  then have "next_suitable (blocks (block_manager vp)) (clamped_index vp + 1) = j"
    by (intro next_suitable_found) auto
  with a show "skip_silence vp =
              vp\<lparr>media_player := (media_player vp)
                    \<lparr>position := seek_target (blocks (block_manager vp) ! j),
                     playbackState := PlayingState\<rparr>,
                 current_block_index := j\<rparr>"
    by (simp add: skip_silence_unfold)
next
  assume a: "blocks (block_manager vp) \<noteq> [] \<and> \<not> time_in_block vp < float_round (1 / 10)
        \<and> skip_condition (blocks (block_manager vp) ! clamped_index vp)
        \<and> (\<forall>k. clamped_index vp < k \<and> k < length (blocks (block_manager vp))
               \<longrightarrow> \<not> suitable (blocks (block_manager vp) ! k))"
  then have "\<not> next_suitable (blocks (block_manager vp)) (clamped_index vp + 1)
                < length (blocks (block_manager vp))"
    by (intro next_suitable_none) auto
  with a have eq: "skip_silence vp =
              vp\<lparr>media_player := stop (media_player vp),
                 current_block_index := clamped_index vp\<rparr>"
    by (simp add: skip_silence_unfold)
  show "skip_silence vp =
              vp\<lparr>media_player := stop (media_player vp),
                 current_block_index := clamped_index vp\<rparr>"
    by (rule eq)
  show "playbackState (media_player (skip_silence vp)) = StoppedState"
    by (simp add: eq stop_def)
qed

text \<open>
  Claim C3 does not hold as stated, because the source computes with floats. At 600
  milliseconds in a silence that starts at 0.5 seconds and is not included, the position
  is exactly 0.1 seconds past the start of the block and a non-silence block of 3 seconds
  follows, yet the evaluation changes nothing: \<open>600 / 1000.0 - 0.5\<close> is the float
  0.09999999999999998, which is below the float 0.1. And a skip to a block that starts at
  32 seconds sends the player to 32049 milliseconds, not to the 32050 of \<open>s + 0.05\<close>:
  \<open>(32.0 + 0.05) * 1000\<close> is the float 32049.999999999996.
\<close>

theorem skip_silence_float_counterexample:
  "\<not> real_of_int 600 / 1000 - 1 / 2 < (1 / 10 :: real)
   \<and> is_silence (half_second_blocks ! 1) \<and> \<not> include (half_second_blocks ! 1)
   \<and> \<not> is_silence (half_second_blocks ! 2)
   \<and> (3 / 10 :: real) \<le> end (half_second_blocks ! 2) - start (half_second_blocks ! 2)
   \<and> skip_silence (player_on half_second_blocks 1 600) = player_on half_second_blocks 1 600
   \<and> position (media_player (skip_silence (player_on late_blocks 0 1000))) = 32049
   \<and> start (late_blocks ! 1) = 32
   \<and> py_int ((32 + 5 / 100) * 1000) = 32050"
  by code_simp


theorem skip_silence_decision_witness:
  "skip_silence (player_on [] 3 500) = player_on [] 3 500
   \<and> clamped_index (player_on dyadic_blocks 3 2000) = 3
   \<and> clamped_index (player_on dyadic_blocks 9 3010) = 4
   \<and> skip_silence (player_on dyadic_blocks 9 3010) = player_on dyadic_blocks 4 3010
   \<and> skip_silence (player_on dyadic_blocks 3 2000) = player_on dyadic_blocks 3 2000
   \<and> skip_silence (player_on dyadic_blocks 0 120) = player_on dyadic_blocks 3 1300
   \<and> skip_silence (player_on dyadic_blocks 4 3500) =
       (player_on dyadic_blocks 4 0)\<lparr>media_player :=
          \<lparr>source = Some ''a.mp4'', position = 0, playbackState = StoppedState\<rparr>\<rparr>"
proof -
  have 0: "skip_silence (player_on [] 3 500) = player_on [] 3 500"
    using skip_silence_decision [of "player_on [] 3 500"]
    by (simp add: player_on_def)
  have i3: "clamped_index (player_on dyadic_blocks 3 2000) = 3"
    using skip_silence_decision [of "player_on dyadic_blocks 3 2000"]
    by (simp add: player_on_def dyadic_blocks_def)
  have i9: "clamped_index (player_on dyadic_blocks 9 3010) = 4"
    by code_simp
  have ne: "\<And>i ms. blocks (block_manager (player_on dyadic_blocks i ms)) \<noteq> []"
    by (simp add: player_on_def dyadic_blocks_def)
  have g: "time_in_block (player_on dyadic_blocks 9 3010) < float_round (1 / 10)"
    by code_simp
  from skip_silence_decision [of "player_on dyadic_blocks 9 3010"] ne g
  have "skip_silence (player_on dyadic_blocks 9 3010) =
      (player_on dyadic_blocks 9 3010)
        \<lparr>current_block_index := clamped_index (player_on dyadic_blocks 9 3010)\<rparr>"
    by blast
  then have "skip_silence (player_on dyadic_blocks 9 3010) =
      (player_on dyadic_blocks 9 3010)\<lparr>current_block_index := 4\<rparr>"
    by (simp only: i9)
  then have 1: "skip_silence (player_on dyadic_blocks 9 3010) = player_on dyadic_blocks 4 3010"
    by (simp add: player_on_def)
  have k: "\<not> time_in_block (player_on dyadic_blocks 3 2000) < float_round (1 / 10)
      \<and> \<not> skip_condition (blocks (block_manager (player_on dyadic_blocks 3 2000))
            ! clamped_index (player_on dyadic_blocks 3 2000))"
    by code_simp
  from skip_silence_decision [of "player_on dyadic_blocks 3 2000"] ne k
  have "skip_silence (player_on dyadic_blocks 3 2000) =
      (player_on dyadic_blocks 3 2000)
        \<lparr>current_block_index := clamped_index (player_on dyadic_blocks 3 2000)\<rparr>"
    by blast
  then have "skip_silence (player_on dyadic_blocks 3 2000) =
      (player_on dyadic_blocks 3 2000)\<lparr>current_block_index := 3\<rparr>"
    by (simp only: i3)
  then have 2: "skip_silence (player_on dyadic_blocks 3 2000) = player_on dyadic_blocks 3 2000"
    by (simp add: player_on_def)
  have i0: "clamped_index (player_on dyadic_blocks 0 120) = 0"
    by code_simp
  have s1: "\<not> suitable (dyadic_blocks ! 1)" and s2: "\<not> suitable (dyadic_blocks ! 2)"
    and s3: "suitable (dyadic_blocks ! 3)"
    by code_simp+
  have between: "\<forall>k. clamped_index (player_on dyadic_blocks 0 120) < k \<and> k < 3 \<longrightarrow>
      \<not> suitable (blocks (block_manager (player_on dyadic_blocks 0 120)) ! k)"
  proof (intro allI impI)
    fix k
    assume "clamped_index (player_on dyadic_blocks 0 120) < k \<and> k < 3"
    then have "k = 1 \<or> k = 2" by (simp only: i0) auto
    then show "\<not> suitable (blocks (block_manager (player_on dyadic_blocks 0 120)) ! k)"
      using s1 s2 by (auto simp: player_on_def)
  qed
  have j: "\<not> time_in_block (player_on dyadic_blocks 0 120) < float_round (1 / 10)
      \<and> skip_condition (blocks (block_manager (player_on dyadic_blocks 0 120))
            ! clamped_index (player_on dyadic_blocks 0 120))"
    by code_simp
  have j': "clamped_index (player_on dyadic_blocks 0 120) < 3
      \<and> 3 < length (blocks (block_manager (player_on dyadic_blocks 0 120)))
      \<and> suitable (blocks (block_manager (player_on dyadic_blocks 0 120)) ! 3)"
    using s3 by (simp only: i0) (simp add: player_on_def dyadic_blocks_def)
  from skip_silence_decision [of "player_on dyadic_blocks 0 120"] ne j j' between
  have "skip_silence (player_on dyadic_blocks 0 120) =
      (player_on dyadic_blocks 0 120)
        \<lparr>media_player := (media_player (player_on dyadic_blocks 0 120))
           \<lparr>position := seek_target (blocks (block_manager (player_on dyadic_blocks 0 120)) ! 3),
            playbackState := PlayingState\<rparr>,
         current_block_index := 3\<rparr>"
    by blast
  moreover have "seek_target (blocks (block_manager (player_on dyadic_blocks 0 120)) ! 3) = 1300"
    by code_simp
  ultimately have "skip_silence (player_on dyadic_blocks 0 120) =
      (player_on dyadic_blocks 0 120)
        \<lparr>media_player := (media_player (player_on dyadic_blocks 0 120))
           \<lparr>position := 1300, playbackState := PlayingState\<rparr>,
         current_block_index := 3\<rparr>"
    by (simp only:)
  then have 3: "skip_silence (player_on dyadic_blocks 0 120) = player_on dyadic_blocks 3 1300"
    by (simp add: player_on_def)
  have i4: "clamped_index (player_on dyadic_blocks 4 3500) = 4"
    by code_simp
  have t: "\<not> time_in_block (player_on dyadic_blocks 4 3500) < float_round (1 / 10)
      \<and> skip_condition (blocks (block_manager (player_on dyadic_blocks 4 3500))
            ! clamped_index (player_on dyadic_blocks 4 3500))"
    by code_simp
  have none: "\<forall>k. clamped_index (player_on dyadic_blocks 4 3500) < k
        \<and> k < length (blocks (block_manager (player_on dyadic_blocks 4 3500)))
      \<longrightarrow> \<not> suitable (blocks (block_manager (player_on dyadic_blocks 4 3500)) ! k)"
    by (simp only: i4) (auto simp: player_on_def dyadic_blocks_def)
  from skip_silence_decision [of "player_on dyadic_blocks 4 3500"] ne t none
  have "skip_silence (player_on dyadic_blocks 4 3500) =
      (player_on dyadic_blocks 4 3500)
        \<lparr>media_player := stop (media_player (player_on dyadic_blocks 4 3500)),
         current_block_index := clamped_index (player_on dyadic_blocks 4 3500)\<rparr>"
    by blast
  then have "skip_silence (player_on dyadic_blocks 4 3500) =
      (player_on dyadic_blocks 4 3500)
        \<lparr>media_player := stop (media_player (player_on dyadic_blocks 4 3500)),
         current_block_index := 4\<rparr>"
    by (simp only: i4)
  then have 4: "skip_silence (player_on dyadic_blocks 4 3500) =
       (player_on dyadic_blocks 4 0)\<lparr>media_player :=
          \<lparr>source = Some ''a.mp4'', position = 0, playbackState = StoppedState\<rparr>\<rparr>"
    by (simp add: player_on_def stop_def)
  from 0 i3 i9 1 2 3 4 show ?thesis by blast
qed

section \<open>Properties of saving and loading\<close>

lemma from_dict_to_dict: "from_dict (to_dict b) = Returns b"
  by (simp add: from_dict_def to_dict_def)

lemma from_dicts_to_dict: "from_dicts (map to_dict bs) = Returns bs"
  by (induction bs) (simp_all add: from_dict_to_dict)

lemma load_state_document:
  assumes "fs path = Document (JObject
             [(''video_path'', (case v of None \<Rightarrow> JNull | Some p \<Rightarrow> JString p)),
              (''blocks'', JArray (map to_dict bs))])"
  shows "load_state bm path fs =
     Some (True, \<lparr>blocks = bs, video_path = v,
                  duration = (if bs = [] then duration bm else Some (end (last bs)))\<rparr>)"
  using assms
  by (cases bm; cases v) (simp_all add: load_state_def from_dicts_to_dict Let_def)

text \<open>
  Claim C4 does not hold as stated: a document whose first block starts at 1 and whose
  second block starts 3 seconds after the first one ends is loaded with success, and the
  manager holds these blocks.
\<close>

theorem load_state_gapped_counterexample:
  "load_state \<lparr>blocks = [], video_path = None, duration = None\<rparr> ''s.json''
       (disk_with ''s.json'' gapped_state)
     = Some (True, \<lparr>blocks = [new_block 1 2 False, new_block 5 6 True],
                    video_path = Some ''a.mp4'', duration = Some 6\<rparr>)
   \<and> \<not> tiles 0 [new_block 1 2 False, new_block 5 6 True] 6
   \<and> start (new_block 1 2 False) \<noteq> 0
   \<and> end (new_block 1 2 False) \<noteq> start (new_block 5 6 True)"
  by (simp add: load_state_def disk_with_def gapped_state_def from_dict_to_dict new_block_def)

text \<open>
  Claim C4, amended. Loading validates nothing about the spans of the blocks: every
  document of the persisted schema, a \<open>video_path\<close> string and a list of block entries with
  the five keys, is loaded with success whatever its blocks are, and the manager then holds
  exactly the listed blocks, the path, and the end of the last block as duration.
\<close>

theorem load_state_no_validation:
  "fs path = Document (JObject [(''video_path'', JString v),
                                (''blocks'', JArray (map to_dict bs))])
   \<longrightarrow> load_state bm path fs =
     Some (True, \<lparr>blocks = bs, video_path = Some v,
                  duration = (if bs = [] then duration bm else Some (end (last bs)))\<rparr>)"
  using load_state_document [of fs path "Some v" bs bm] by simp

theorem load_state_no_validation_witness:
  "disk_with ''s.json'' gapped_state ''s.json''
     = Document (JObject [(''video_path'', JString ''a.mp4''),
         (''blocks'', JArray (map to_dict [new_block 1 2 False, new_block 5 6 True]))])
   \<and> load_state \<lparr>blocks = [], video_path = None, duration = None\<rparr> ''s.json''
       (disk_with ''s.json'' gapped_state)
     = Some (True, \<lparr>blocks = [new_block 1 2 False, new_block 5 6 True],
                    video_path = Some ''a.mp4'', duration = Some 6\<rparr>)"
proof -
  have d: "disk_with ''s.json'' gapped_state ''s.json''
     = Document (JObject [(''video_path'', JString ''a.mp4''),
         (''blocks'', JArray (map to_dict [new_block 1 2 False, new_block 5 6 True]))])"
    by (simp add: disk_with_def gapped_state_def)
  from load_state_no_validation
    [of "disk_with ''s.json'' gapped_state" "''s.json''" "''a.mp4''"
        "[new_block 1 2 False, new_block 5 6 True]"
        "\<lparr>blocks = [], video_path = None, duration = None\<rparr>"] d
  have "load_state \<lparr>blocks = [], video_path = None, duration = None\<rparr> ''s.json''
       (disk_with ''s.json'' gapped_state)
     = Some (True, \<lparr>blocks = [new_block 1 2 False, new_block 5 6 True],
                    video_path = Some ''a.mp4'', duration = Some 6\<rparr>)"
    by (simp add: new_block_def)
  with d show ?thesis by blast
qed

text \<open>
  Claim C5, at the input where the code departs from it. The manager holds the path
  \<open>a.mp4\<close> and one block; the document names \<open>b.mp4\<close> and its only block entry has no
  key. \<open>from_dict\<close> raises \<open>KeyError\<close>, \<open>load_state\<close> returns \<open>False\<close>, and the manager is
  left with the new path beside the old blocks.
\<close>

theorem load_state_partial_update:
  "load_state \<lparr>blocks = [new_block 0 1 False], video_path = Some ''a.mp4'', duration = None\<rparr>
       ''s.json'' (disk_with ''s.json'' truncated_state)
     = Some (False, \<lparr>blocks = [new_block 0 1 False], video_path = Some ''b.mp4'',
                     duration = None\<rparr>)"
  by (simp add: load_state_def disk_with_def truncated_state_def from_dict_def)

text \<open>
  Claim C6. For every manager with a non-empty block list, which every block list that
  satisfies the structural invariant is, and every path that can be written, saving
  succeeds, and loading the saved file into any manager succeeds and gives the saved video
  path and the saved blocks, equal in all five fields, whatever their include and visited
  flags are.
\<close>

theorem save_load_roundtrip:
  "blocks bm \<noteq> [] \<and> fs filepath \<noteq> Locked \<longrightarrow>
     fst (save_state bm filepath fs) = True
   \<and> (\<forall>bm0. load_state bm0 filepath (snd (save_state bm filepath fs)) =
         Some (True, \<lparr>blocks = blocks bm, video_path = video_path bm,
                      duration = Some (end (last (blocks bm)))\<rparr>))"
proof (intro impI)
  assume a: "blocks bm \<noteq> [] \<and> fs filepath \<noteq> Locked"
  let ?doc = "JObject [(''video_path'', (case video_path bm of None \<Rightarrow> JNull | Some p \<Rightarrow> JString p)),
                       (''blocks'', JArray (map to_dict (blocks bm)))]"
  from a have s: "save_state bm filepath fs = (True, fs(filepath := Document ?doc))"
    by (cases "fs filepath") (simp_all add: save_state_def)
  have "load_state bm0 filepath (fs(filepath := Document ?doc)) =
         Some (True, \<lparr>blocks = blocks bm, video_path = video_path bm,
                      duration = Some (end (last (blocks bm)))\<rparr>)" for bm0
    using load_state_document
      [of "fs(filepath := Document ?doc)" filepath "video_path bm" "blocks bm" bm0] a
    by simp
  with s show "fst (save_state bm filepath fs) = True
   \<and> (\<forall>bm0. load_state bm0 filepath (snd (save_state bm filepath fs)) =
         Some (True, \<lparr>blocks = blocks bm, video_path = video_path bm,
                      duration = Some (end (last (blocks bm)))\<rparr>))"
    by simp
qed

theorem save_load_roundtrip_witness:
  "blocks (block_manager (skip_player 0 0)) \<noteq> [] \<and> empty_disk ''s.json'' \<noteq> Locked
   \<and> tiles 0 (blocks (block_manager (skip_player 0 0))) 4
   \<and> fst (save_state (block_manager (skip_player 0 0)) ''s.json'' empty_disk) = True
   \<and> load_state \<lparr>blocks = [], video_path = None, duration = None\<rparr> ''s.json''
         (snd (save_state (block_manager (skip_player 0 0)) ''s.json'' empty_disk))
       = Some (True, \<lparr>blocks = skip_blocks, video_path = Some ''a.mp4'', duration = Some 4\<rparr>)"
proof -
  have h: "blocks (block_manager (skip_player 0 0)) \<noteq> [] \<and> empty_disk ''s.json'' \<noteq> Locked"
    by (simp add: skip_player_def skip_blocks_def empty_disk_def)
  have t: "tiles 0 (blocks (block_manager (skip_player 0 0))) 4"
    by (simp add: skip_player_def skip_blocks_def new_block_def)
  from save_load_roundtrip [of "block_manager (skip_player 0 0)" empty_disk "''s.json''"] h
  have r: "fst (save_state (block_manager (skip_player 0 0)) ''s.json'' empty_disk) = True"
    and l: "\<forall>bm0. load_state bm0 ''s.json''
            (snd (save_state (block_manager (skip_player 0 0)) ''s.json'' empty_disk)) =
         Some (True, \<lparr>blocks = blocks (block_manager (skip_player 0 0)),
                      video_path = video_path (block_manager (skip_player 0 0)),
                      duration = Some (end (last (blocks (block_manager (skip_player 0 0)))))\<rparr>)"
    by blast+
  from l have "load_state \<lparr>blocks = [], video_path = None, duration = None\<rparr> ''s.json''
         (snd (save_state (block_manager (skip_player 0 0)) ''s.json'' empty_disk))
       = Some (True, \<lparr>blocks = skip_blocks, video_path = Some ''a.mp4'', duration = Some 4\<rparr>)"
    by (simp add: skip_player_def skip_blocks_def new_block_def)
  with h t r show ?thesis by blast
qed

section \<open>Properties of the export\<close>

lemma segments_append: "segments (xs @ ys) = segments xs @ segments ys"
  by (induction xs rule: segments.induct) simp_all

lemma cut_loop_calls:
  "cut_loop run path props i bs calls = (ok, calls') \<Longrightarrow>
     \<exists>cs. calls' = calls @ cs \<and> prefix (segments cs) (map descriptor bs)
          \<and> (ok \<longrightarrow> segments cs = map descriptor bs)"
proof (induction bs arbitrary: i calls)
  case Nil
  then show ?case by auto
next
  case (Cons b bs)
  let ?call = "CutSegment i path (start b) (max (1 / 10) (end b - start b)) props"
  show ?case
  proof (cases "run ?call")
    case True
    with Cons.prems have "cut_loop run path props (Suc i) bs (calls @ [?call]) = (ok, calls')"
      by (simp add: Let_def)
    from Cons.IH[OF this] obtain cs where cs: "calls' = (calls @ [?call]) @ cs"
      "prefix (segments cs) (map descriptor bs)" "ok \<longrightarrow> segments cs = map descriptor bs"
      by blast
    show ?thesis
    proof (intro exI[of _ "?call # cs"] conjI)
      show "calls' = calls @ ?call # cs" using cs(1) by simp
      show "prefix (segments (?call # cs)) (map descriptor (b # bs))"
        using cs(2) by (simp add: descriptor_def)
      show "ok \<longrightarrow> segments (?call # cs) = map descriptor (b # bs)"
        using cs(3) by (simp add: descriptor_def)
    qed
  next
    case False
    with Cons.prems have r: "ok = False" "calls' = calls @ [?call]"
      by (simp_all add: Let_def)
    show ?thesis
    proof (intro exI[of _ "[?call]"] conjI)
      show "calls' = calls @ [?call]" by (rule r)
      show "prefix (segments [?call]) (map descriptor (b # bs))"
        by (simp add: descriptor_def)
      show "ok \<longrightarrow> segments [?call] = map descriptor (b # bs)"
        using r by simp
    qed
  qed
qed

lemma cut_loop_ok:
  "(\<forall>c. run c) \<Longrightarrow> fst (cut_loop run path props i bs calls) = True"
  by (induction bs arbitrary: i calls) (simp_all add: Let_def)

lemma export_segments_prefix:
  "prefix (segments (snd (export_green_blocks run probe output_path vp)))
          (map descriptor (filter selected (blocks (block_manager vp))))"
proof -
  let ?inc = "filter selected (blocks (block_manager vp))"
  have sel: "filter (\<lambda>block. \<not> is_silence block \<and> visited block \<and> include block)
               (blocks (block_manager vp)) = ?inc"
    by (simp add: selected_def[abs_def])
  have loop: "prefix (segments calls') (map descriptor ?inc)"
    if "cut_loop run path props 0 ?inc [] = (ok, calls')" for path props ok calls'
    using cut_loop_calls[OF that] by auto
  show ?thesis
    unfolding export_green_blocks_def Let_def sel
    by (auto split: option.splits sum.splits prod.splits bool.splits
             simp: segments_append dest: loop)
qed

lemma export_segments_all:
  assumes "blocks (block_manager vp) \<noteq> []" "video_path (block_manager vp) = Some path"
    "path \<noteq> []" "output_path \<noteq> []" "probe = Inr props" "\<forall>c. run c"
  shows "segments (snd (export_green_blocks run probe output_path vp)) =
           map descriptor (filter selected (blocks (block_manager vp)))"
    and "fst (export_green_blocks run probe output_path vp) =
           (if filter selected (blocks (block_manager vp)) = [] then NoSelection
            else ExportComplete)"
proof -
  let ?inc = "filter selected (blocks (block_manager vp))"
  have sel: "filter (\<lambda>block. \<not> is_silence block \<and> visited block \<and> include block)
               (blocks (block_manager vp)) = ?inc"
    by (simp add: selected_def[abs_def])
  obtain ok calls' where c: "cut_loop run path props 0 ?inc [] = (ok, calls')"
    by (cases "cut_loop run path props 0 ?inc []")
  from cut_loop_ok[OF assms(6), of path props 0 ?inc "[]"] c have ok: "ok" by simp
  from cut_loop_calls[OF c] ok have segs: "segments calls' = map descriptor ?inc" by auto
  show "segments (snd (export_green_blocks run probe output_path vp)) = map descriptor ?inc"
    unfolding export_green_blocks_def Let_def sel
    using assms c ok segs by (simp add: segments_append)
  show "fst (export_green_blocks run probe output_path vp) =
           (if ?inc = [] then NoSelection else ExportComplete)"
    unfolding export_green_blocks_def Let_def sel
    using assms c ok by simp
qed


text \<open>
  Claim C1. For a model with a non-empty block list (a video path set, an output file
  chosen, and ffprobe and ffmpeg succeeding, so that the export runs to its end), the cuts
  of the export are, in the order of the timeline, exactly the blocks that are not
  silence, visited and included, one cut per such block, each from the block's start and
  with the duration \<open>max(0.1, end - start)\<close>; the export ends with "no blocks selected"
  exactly when no block qualifies. Whatever the tools do, the cuts made are an initial
  part of that list.
\<close>

theorem export_plan_selection:
  "(blocks (block_manager vp) \<noteq> [] \<and> video_path (block_manager vp) = Some path
      \<and> path \<noteq> [] \<and> output_path \<noteq> [] \<and> probe = Inr props \<and> (\<forall>c. run c)
    \<longrightarrow> segments (snd (export_green_blocks run probe output_path vp)) =
           map descriptor (filter selected (blocks (block_manager vp)))
        \<and> fst (export_green_blocks run probe output_path vp) =
           (if filter selected (blocks (block_manager vp)) = [] then NoSelection
            else ExportComplete))
   \<and> prefix (segments (snd (export_green_blocks run probe output_path vp)))
          (map descriptor (filter selected (blocks (block_manager vp))))"
  using export_segments_all [of vp path output_path probe props run]
    export_segments_prefix [of run probe output_path vp]
  by blast

theorem export_plan_selection_witness:
  "blocks (block_manager export_player) \<noteq> []
   \<and> video_path (block_manager export_player) = Some ''a.mp4''
   \<and> filter selected (blocks (block_manager export_player)) =
       [export_blocks ! 0, export_blocks ! 2]
   \<and> segments (snd (export_green_blocks always_ok (Inr h264_props) ''out.mp4'' export_player))
       = [(0, 2), (3, 1 / 10)]
   \<and> fst (export_green_blocks always_ok (Inr h264_props) ''out.mp4'' export_player)
       = ExportComplete"
proof -
  have h: "blocks (block_manager export_player) \<noteq> []
      \<and> video_path (block_manager export_player) = Some ''a.mp4''
      \<and> ''a.mp4'' \<noteq> [] \<and> ''out.mp4'' \<noteq> []
      \<and> (Inr h264_props :: py_error + video_props) = Inr h264_props
      \<and> (\<forall>c. always_ok c)"
    by (simp add: export_player_def export_blocks_def always_ok_def)
  have f: "filter selected (blocks (block_manager export_player)) =
       [export_blocks ! 0, export_blocks ! 2]"
    by (simp add: export_player_def export_blocks_def selected_def new_block_def)
  from export_plan_selection
    [of export_player "''a.mp4''" "''out.mp4''" "Inr h264_props" h264_props always_ok] h
  have s: "segments (snd (export_green_blocks always_ok (Inr h264_props) ''out.mp4'' export_player))
          = map descriptor (filter selected (blocks (block_manager export_player)))"
    and r: "fst (export_green_blocks always_ok (Inr h264_props) ''out.mp4'' export_player) =
           (if filter selected (blocks (block_manager export_player)) = [] then NoSelection
            else ExportComplete)"
    by blast+
  from s have s': "segments (snd (export_green_blocks always_ok (Inr h264_props) ''out.mp4'' export_player))
       = [(0, 2), (3, 1 / 10)]"
    by (simp add: f export_blocks_def descriptor_def)
  from r have r': "fst (export_green_blocks always_ok (Inr h264_props) ''out.mp4'' export_player)
       = ExportComplete"
    by (simp add: f)
  from h f s' r' show ?thesis by blast
qed

section \<open>The flags of silence blocks along a session\<close>

lemma silence_untouched_append:
  "silence_untouched (xs @ ys) \<longleftrightarrow> silence_untouched xs \<and> silence_untouched ys"
  by (simp add: silence_untouched_def)

lemma silence_loop_untouched:
  "silence_untouched bs \<Longrightarrow> silence_untouched (fst (silence_loop ivs (bs, t)))"
proof (induction ivs arbitrary: bs t)
  case Nil
  then show ?case by simp
next
  case (Cons iv ivs)
  obtain s e where iv: "iv = (s, e)" by (cases iv)
  have "silence_untouched ((if s > t then bs @ [new_block t s False] else bs) @ [new_block s e True])"
    using Cons.prems by (simp add: silence_untouched_def new_block_def)
  from Cons.IH[OF this] show ?case by (simp add: iv)
qed

lemma build_blocks_untouched: "silence_untouched (build_blocks ivs d)"
proof -
  obtain bs t where loop: "silence_loop ivs ([], 0) = (bs, t)"
    by (cases "silence_loop ivs ([], 0)")
  have "silence_untouched (fst (silence_loop ivs ([], 0)))"
    by (rule silence_loop_untouched) (simp add: silence_untouched_def)
  with loop show ?thesis
    by (simp add: build_blocks_def silence_untouched_def new_block_def)
qed

lemma position_changed_silence:
  "i < length (blocks (block_manager vp)) \<Longrightarrow> is_silence (blocks (block_manager vp) ! i) \<Longrightarrow>
     blocks (block_manager (position_changed ms vp)) ! i = blocks (block_manager vp) ! i"
  by (cases "find_block_at (blocks (block_manager vp)) (py_truediv (float_round (real_of_int ms)) 1000) = i")
     (auto simp: position_changed_def Let_def)

lemma position_changed_length:
  "length (blocks (block_manager (position_changed ms vp))) = length (blocks (block_manager vp))"
  by (simp add: position_changed_def Let_def)

lemma position_changed_untouched:
  assumes "silence_untouched (blocks (block_manager vp))"
  shows "silence_untouched (blocks (block_manager (position_changed ms vp)))"
proof -
  let ?blks = "blocks (block_manager vp)"
  let ?i = "find_block_at ?blks (py_truediv (float_round (real_of_int ms)) 1000)"
  have upd: "silence_untouched (?blks[?i := (?blks ! ?i)\<lparr>visited := True, include := green_mode vp\<rparr>])"
    if "\<not> is_silence (?blks ! ?i)"
    using assms that unfolding silence_untouched_def list_all_iff
    by (auto dest!: set_update_subset_insert[THEN subsetD])
  show ?thesis
    using assms upd by (auto simp: position_changed_def Let_def)
qed

lemma reset_blocks_silence:
  "i < length (blocks bm) \<Longrightarrow> is_silence (blocks bm ! i) \<Longrightarrow>
     blocks (reset_blocks bm) ! i = blocks bm ! i"
  by (simp add: reset_blocks_def)

lemma reset_blocks_untouched:
  "silence_untouched (blocks bm) \<Longrightarrow> silence_untouched (blocks (reset_blocks bm))"
  by (auto simp: reset_blocks_def silence_untouched_def list_all_iff)

lemma skip_silence_blocks: "blocks (block_manager (skip_silence vp)) = blocks (block_manager vp)"
  by (simp add: skip_silence_def Let_def)

lemma goto_next_blocks: "blocks (block_manager (goto_next_block vp)) = blocks (block_manager vp)"
  by (simp add: goto_next_block_def jump_to_def Let_def split: option.splits)

lemma goto_previous_blocks:
  "blocks (block_manager (goto_previous_block vp)) = blocks (block_manager vp)"
  by (simp add: goto_previous_block_def jump_to_def Let_def split: option.splits sum.splits)

lemma open_file_untouched:
  "silence_untouched (blocks (block_manager vp)) \<Longrightarrow>
   silence_untouched (blocks (block_manager (open_file pyfloat path reply output probe_stdout vp)))"
  by (auto simp: open_file_def Let_def detect_blocks_def build_blocks_untouched
        silence_untouched_def[of "[]"] split: sum.splits option.splits)

lemma load_state_blocks:
  "load_state bm filepath fs = Some (ok, bm') \<Longrightarrow>
     blocks bm' = blocks bm
     \<or> (\<exists>doc. fs filepath = Document doc \<and> document_blocks doc = Some (blocks bm'))"
  by (auto simp: load_state_def document_blocks_def Let_def
        split: disk_file.splits sum.splits option.splits outcome.splits json.splits if_splits)

lemma player_load_state_untouched:
  assumes "silence_untouched (blocks (block_manager vp))" "clean_disk fs"
    "player_load_state filepath (vp, fs) = Some (vp', fs')"
  shows "silence_untouched (blocks (block_manager vp')) \<and> fs' = fs"
proof (cases "filepath = []")
  case True
  with assms show ?thesis by (simp add: player_load_state_def)
next
  case False
  with assms(3) obtain ok bm' where l: "load_state (block_manager vp) filepath fs = Some (ok, bm')"
    and r: "blocks (block_manager vp') = blocks bm'" "fs' = fs"
    by (auto simp: player_load_state_def split: option.splits bool.splits)
  from load_state_blocks[OF l] assms(1,2) have "silence_untouched (blocks bm')"
    by (auto simp: clean_disk_def)
  with r show ?thesis by simp
qed

lemma document_blocks_saved:
  "document_blocks (JObject [(''video_path'', p), (''blocks'', JArray (map to_dict bs))]) = Some bs"
  by (simp add: document_blocks_def from_dicts_to_dict)

lemma player_save_state_clean:
  assumes "silence_untouched (blocks (block_manager vp))" "clean_disk fs"
    "player_save_state filepath (vp, fs) = (vp', fs')"
  shows "vp' = vp \<and> clean_disk fs'"
proof -
  have "clean_disk (snd (save_state (block_manager vp) filepath fs))"
    using assms(1,2)
    by (auto simp: save_state_def clean_disk_def Let_def document_blocks_saved
          split: disk_file.splits if_splits)
  with assms show ?thesis
    by (auto simp: player_save_state_def split: if_splits)
qed

lemma step_invariant:
  assumes "silence_untouched (blocks (block_manager vp))" "clean_disk fs"
    "step pyfloat ev (vp, fs) = Some (vp', fs')"
  shows "silence_untouched (blocks (block_manager vp')) \<and> clean_disk fs'"
proof (cases ev)
  case (OpenFile path reply outp probe_stdout)
  with assms open_file_untouched[OF assms(1)] show ?thesis by auto
next
  case (LoadState filepath)
  with assms player_load_state_untouched[of vp fs filepath vp' fs'] show ?thesis by auto
next
  case (SaveState filepath)
  with assms player_save_state_clean[of vp fs filepath vp' fs'] show ?thesis by auto
next
  case (PositionChanged ms)
  with assms position_changed_untouched[OF assms(1)] show ?thesis by auto
next
  case ResetBlocks
  with assms reset_blocks_untouched[OF assms(1)] show ?thesis
    by (auto simp: player_reset_blocks_def)
next
  case ToggleMode
  with assms show ?thesis by (auto simp: toggle_mode_def)
next
  case GotoNext
  with assms show ?thesis by (auto simp: goto_next_blocks)
next
  case GotoPrevious
  with assms show ?thesis by (auto simp: goto_previous_blocks)
next
  case PlayPause
  with assms show ?thesis by (auto simp: play_pause_def)
next
  case SkipTimer
  with assms show ?thesis by (auto simp: skip_silence_blocks)
next
  case (SetPosition ms)
  with assms show ?thesis by (auto simp: set_position_def)
qed

lemma run_events_invariant:
  "silence_untouched (blocks (block_manager vp)) \<Longrightarrow> clean_disk fs \<Longrightarrow>
   run_events pyfloat evs (vp, fs) = Some (vp', fs') \<Longrightarrow>
   silence_untouched (blocks (block_manager vp')) \<and> clean_disk fs'"
proof (induction evs arbitrary: vp fs)
  case Nil
  then show ?case by simp
next
  case (Cons ev evs)
  from Cons.prems(3) obtain vp1 fs1 where s: "step pyfloat ev (vp, fs) = Some (vp1, fs1)"
    and r: "run_events pyfloat evs (vp1, fs1) = Some (vp', fs')"
    by (auto split: option.splits)
  from step_invariant[OF Cons.prems(1,2) s]
  have "silence_untouched (blocks (block_manager vp1))" "clean_disk fs1" by simp_all
  from Cons.IH[OF this r] show ?case .
qed


text \<open>
  Claim C10 does not hold as stated: from a window whose blocks come fresh from the block
  builder, loading a state file in which the silence block is marked included and visited
  gives a state whose silence block has both flags true. \<open>from_dict\<close> writes the two
  fields of every block it builds, silence or not.
\<close>

theorem load_marks_silence_counterexample:
  "blocks (block_manager fresh_player) = build_blocks [(2, 3)] 10
   \<and> map_option fst (run_events decimal_float [LoadState ''s.json'']
                       (fresh_player, disk_with ''s.json'' marked_state))
     = Some (fresh_player\<lparr>block_manager :=
               \<lparr>blocks = [new_block 0 2 False,
                           \<lparr>start = 2, end = 3, is_silence = True, include = True, visited = True\<rparr>,
                           new_block 3 10 False],
                video_path = Some ''a.mp4'', duration = Some 10\<rparr>\<rparr>)
   \<and> \<not> silence_untouched
         [new_block 0 2 False,
          \<lparr>start = 2, end = 3, is_silence = True, include = True, visited = True\<rparr>,
          new_block 3 10 False]"
  by (simp add: fresh_player_def player_load_state_def load_state_def disk_with_def
        marked_state_def from_dict_to_dict setSource_def silence_untouched_def new_block_def)


text \<open>
  Claim C10, amended. Starting from blocks that come fresh from the block builder and
  from a disk on which every state file decodes to blocks whose silence blocks have both
  flags false, every state reached through the slots of the window (open, load, save,
  position update, reset, mode toggle, next and previous block, play and pause, skip
  timer, seek) has only silence blocks with \<open>include\<close> and \<open>visited\<close> false, and the disk
  keeps its property. The position update and the reset leave every silence block exactly
  as it was. Loading writes the flags of silence blocks too, which is why the disk has to
  be named.
\<close>

theorem silence_flags_invariant:
  "(blocks (block_manager vp0) = build_blocks ivs d \<and> clean_disk fs0
      \<and> run_events pyfloat evs (vp0, fs0) = Some (vp, fs)
    \<longrightarrow> silence_untouched (blocks (block_manager vp)) \<and> clean_disk fs)
   \<and> (\<forall>i. i < length (blocks (block_manager vp1)) \<and> is_silence (blocks (block_manager vp1) ! i)
        \<longrightarrow> blocks (block_manager (position_changed ms vp1)) ! i
              = blocks (block_manager vp1) ! i)
   \<and> (\<forall>i. i < length (blocks bm) \<and> is_silence (blocks bm ! i)
        \<longrightarrow> blocks (reset_blocks bm) ! i = blocks bm ! i)"
proof (intro conjI impI allI)
  assume a: "blocks (block_manager vp0) = build_blocks ivs d \<and> clean_disk fs0
      \<and> run_events pyfloat evs (vp0, fs0) = Some (vp, fs)"
  then have "silence_untouched (blocks (block_manager vp0))"
    by (simp add: build_blocks_untouched)
  with a have "silence_untouched (blocks (block_manager vp)) \<and> clean_disk fs"
    by (intro run_events_invariant[of vp0 fs0 pyfloat evs vp fs]) simp_all
  then show "silence_untouched (blocks (block_manager vp))" and "clean_disk fs"
    by simp_all
next
  fix i
  assume "i < length (blocks (block_manager vp1)) \<and> is_silence (blocks (block_manager vp1) ! i)"
  then show "blocks (block_manager (position_changed ms vp1)) ! i = blocks (block_manager vp1) ! i"
    by (simp add: position_changed_silence)
next
  fix i
  assume "i < length (blocks bm) \<and> is_silence (blocks bm ! i)"
  then show "blocks (reset_blocks bm) ! i = blocks bm ! i"
    by (simp add: reset_blocks_silence)
qed

lemma session_events_run:
  "map_option fst (run_events decimal_float session_events (fresh_player, empty_disk)) =
     Some (fresh_player\<lparr>block_manager :=
       \<lparr>blocks = [\<lparr>start = 0, end = 2, is_silence = False, include = True, visited = True\<rparr>,
                   new_block 2 3 True, new_block 3 10 False],
        video_path = Some ''a.mp4'', duration = Some 10\<rparr>\<rparr>)"
  by code_simp


theorem silence_flags_invariant_witness:
  "blocks (block_manager fresh_player) = build_blocks [(2, 3)] 10 \<and> clean_disk empty_disk
   \<and> map_option fst (run_events decimal_float session_events (fresh_player, empty_disk)) =
       Some (fresh_player\<lparr>block_manager :=
         \<lparr>blocks = [\<lparr>start = 0, end = 2, is_silence = False, include = True, visited = True\<rparr>,
                     new_block 2 3 True, new_block 3 10 False],
          video_path = Some ''a.mp4'', duration = Some 10\<rparr>\<rparr>)
   \<and> silence_untouched
        [\<lparr>start = 0, end = 2, is_silence = False, include = True, visited = True\<rparr>,
         new_block 2 3 True, new_block 3 10 False]
   \<and> blocks (block_manager (position_changed 2500 fresh_player)) ! 1 = new_block 2 3 True
   \<and> blocks (reset_blocks (block_manager fresh_player)) ! 1 = new_block 2 3 True"
proof -
  let ?final = "fresh_player\<lparr>block_manager :=
         \<lparr>blocks = [\<lparr>start = 0, end = 2, is_silence = False, include = True, visited = True\<rparr>,
                     new_block 2 3 True, new_block 3 10 False],
          video_path = Some ''a.mp4'', duration = Some 10\<rparr>\<rparr>"
  have b: "blocks (block_manager fresh_player) = build_blocks [(2, 3)] 10"
    by (simp add: fresh_player_def)
  have c: "clean_disk empty_disk"
    by (simp add: clean_disk_def empty_disk_def)
  from session_events_run obtain fs
    where r: "run_events decimal_float session_events (fresh_player, empty_disk) = Some (?final, fs)"
    by (cases "run_events decimal_float session_events (fresh_player, empty_disk)") auto
  note inst = silence_flags_invariant
    [of fresh_player "[(2, 3)]" 10 empty_disk decimal_float session_events ?final fs
        fresh_player 2500 "block_manager fresh_player"]
  from inst b c r have "silence_untouched (blocks (block_manager ?final))"
    by blast
  then have u: "silence_untouched
        [\<lparr>start = 0, end = 2, is_silence = False, include = True, visited = True\<rparr>,
         new_block 2 3 True, new_block 3 10 False]"
    by simp
  have s: "(1::nat) < length (blocks (block_manager fresh_player))
      \<and> is_silence (blocks (block_manager fresh_player) ! 1)"
    "blocks (block_manager fresh_player) ! 1 = new_block 2 3 True"
    by (simp_all add: fresh_player_def build_blocks_def new_block_def)
  from inst s have p: "blocks (block_manager (position_changed 2500 fresh_player)) ! 1
      = new_block 2 3 True"
    by metis
  from inst s have q: "blocks (reset_blocks (block_manager fresh_player)) ! 1 = new_block 2 3 True"
    by metis
  from b c session_events_run u p q show ?thesis by blast
qed

end
